theory Spec2Isabelle
  imports Complex_Main "HOL-Library.Multiset" "HOL-Library.Product_Lexorder" "HOL-Library.Option_ord"
begin

section \<open>Data model\<close>

text \<open>
  The backend stores its documents in MongoDB collections through Mongoose. A collection
  is modelled as the list of its documents in insertion order, an ObjectId as a natural
  number, a JavaScript number as a rational (every value the handlers compute here is a
  sum, difference, product or quotient of the request's numbers; NaN and the infinities
  are outside the model), and a timestamp as a natural number of milliseconds.
\<close>

type_synonym object_id = nat
type_synonym number = rat
type_synonym timestamp = nat

text \<open>The plan names of \<^verbatim>\<open>subscription.plan\<close> and \<^verbatim>\<open>subscriptionRequired\<close>.\<close>

datatype plan = Free | Basic | Standard | Premium

datatype content_type = Movie | Series

datatype content_status = Draft | Published | Archived

text \<open>
  The handlers answer with \<^verbatim>\<open>res.status(404)\<close> (message "Content not found"), with
  \<^verbatim>\<open>res.status(403)\<close> (the plan check of startPlayback), or pass an exception to
  \<^verbatim>\<open>next(error)\<close>.
\<close>

datatype error = ContentNotFound | AccessDenied | ServerError

text \<open>PlaybackSession.model.js: the \<^verbatim>\<open>progress\<close> sub-document and the session.\<close>

record progress_t =
  currentTime :: number
  duration :: number
  percentage :: number

record playback_session =
  sess_id :: object_id
  userId :: object_id
  contentId :: object_id
  episodeId :: "string option"
  progress :: progress_t
  completed :: bool
  quality :: string
  lastUpdated :: timestamp
  sessionDuration :: number

text \<open>User.model.js: an element of \<^verbatim>\<open>watchHistory\<close>, and the fields of a user the handlers read.\<close>

record history_entry =
  h_contentId :: object_id
  watchedAt :: timestamp
  h_progress :: number
  h_completed :: bool

record user =
  user_id :: object_id
  user_plan :: "plan option"
  watchlist :: "object_id list"
  watchHistory :: "history_entry list"

text \<open>
  Content.model.js: the fields the playback and recommendation handlers read. A season is
  the list of its episodes, an episode its id and its video URL.
\<close>

record content =
  content_id :: object_id
  ctype :: content_type
  genres :: "string list"
  director :: "string option"
  cast_names :: "string list"
  imdbRating :: "number option"
  views :: nat
  createdAt :: timestamp
  status :: content_status
  subscriptionRequired :: "plan option"
  videoUrl :: "string option"
  seasons :: "(string \<times> string option) list list"

record db =
  sessions :: "playback_session list"
  users :: "user list"
  contents :: "content list"

section \<open>Store primitives\<close>

text \<open>
  \<^verbatim>\<open>findOne\<close> and \<^verbatim>\<open>findById\<close> are \<^const>\<open>find\<close> on the collection; saving a found
  document, \<^verbatim>\<open>findOneAndUpdate\<close> and \<^verbatim>\<open>findByIdAndUpdate\<close> rewrite the first document
  that matches and leave every other document, and the order, alone.
\<close>

fun update_first :: "('a \<Rightarrow> bool) \<Rightarrow> ('a \<Rightarrow> 'a) \<Rightarrow> 'a list \<Rightarrow> 'a list" where
  "update_first P f [] = []"
| "update_first P f (x # xs) = (if P x then f x # xs else x # update_first P f xs)"

text \<open>A new document gets an ObjectId no document of the collection has.\<close>

definition new_id :: "playback_session list \<Rightarrow> object_id" where
  "new_id ss = Suc (fold max (map sess_id ss) 0)"

text \<open>\<^verbatim>\<open>x || null\<close> on an optional string: the empty string is falsy.\<close>

definition or_null :: "string option \<Rightarrow> string option" where
  "or_null e = (case e of None \<Rightarrow> None | Some s \<Rightarrow> (if s = [] then None else Some s))"

text \<open>\<^verbatim>\<open>x || 0\<close> on a number.\<close>

definition or_zero :: "number \<Rightarrow> number" where
  "or_zero x = (if x = 0 then 0 else x)"

section \<open>Playback sessions\<close>

text \<open>
  \<^verbatim>\<open>playbackSessionSchema.pre('save')\<close>: recompute the percentage when the duration is
  positive, mark the session completed from 90 percent on, stamp \<^verbatim>\<open>lastUpdated\<close>. The
  hook has no branch that clears \<^verbatim>\<open>completed\<close>. The argument \<open>now\<close> is the value of
  \<^verbatim>\<open>Date.now()\<close> while the request is handled.
\<close>

definition pre_save :: "timestamp \<Rightarrow> playback_session \<Rightarrow> playback_session" where
  "pre_save now s =
     (let s1 =
        (if duration (progress s) > 0 then
           let s2 = s\<lparr>progress := (progress s)
                      \<lparr>percentage := (currentTime (progress s) / duration (progress s)) * 100\<rparr>\<rparr>
           in (if percentage (progress s2) \<ge> 90 then s2\<lparr>completed := True\<rparr> else s2)
         else s)
      in s1\<lparr>lastUpdated := now\<rparr>)"

text \<open>
  \<^verbatim>\<open>PlaybackSession.create\<close>: the schema defaults (percentage 0, not completed,
  sessionDuration 0), then the save hook. \<^verbatim>\<open>startedAt\<close> is not modelled: no handler
  reads it. This is the creation of updateProgress, which passes no \<^verbatim>\<open>device\<close>.
\<close>

definition create_session ::
  "timestamp \<Rightarrow> object_id \<Rightarrow> object_id \<Rightarrow> string option \<Rightarrow> number \<Rightarrow> number \<Rightarrow> string
     \<Rightarrow> playback_session list \<Rightarrow> playback_session" where
  "create_session now uid cid ep ct d q ss =
     pre_save now
       \<lparr>sess_id = new_id ss, userId = uid, contentId = cid, episodeId = ep,
        progress = \<lparr>currentTime = ct, duration = d, percentage = 0\<rparr>,
        completed = False, quality = q, lastUpdated = now, sessionDuration = 0\<rparr>"

section \<open>Watch history ledger\<close>

text \<open>\<^verbatim>\<open>$pull: { watchHistory: { contentId } }\<close> removes every entry of that content.\<close>

definition pull_history :: "object_id \<Rightarrow> history_entry list \<Rightarrow> history_entry list" where
  "pull_history cid h = filter (\<lambda>e. h_contentId e \<noteq> cid) h"

text \<open>
  \<^verbatim>\<open>$push\<close> with \<^verbatim>\<open>$each: [entry]\<close>, \<^verbatim>\<open>$position: 0\<close>, \<^verbatim>\<open>$slice: 100\<close>: insert at
  the head, then keep the first 100 elements.
\<close>

definition push_history :: "history_entry \<Rightarrow> history_entry list \<Rightarrow> history_entry list" where
  "push_history e h = take 100 (e # h)"

definition upsert_history :: "history_entry \<Rightarrow> history_entry list \<Rightarrow> history_entry list" where
  "upsert_history e h = push_history e (pull_history (h_contentId e) h)"

definition update_user :: "object_id \<Rightarrow> (user \<Rightarrow> user) \<Rightarrow> db \<Rightarrow> db" where
  "update_user uid f d = d\<lparr>users := update_first (\<lambda>u. user_id u = uid) f (users d)\<rparr>"

definition history_of :: "object_id \<Rightarrow> db \<Rightarrow> history_entry list" where
  "history_of uid d =
     (case find (\<lambda>u. user_id u = uid) (users d) of None \<Rightarrow> [] | Some u \<Rightarrow> watchHistory u)"

section \<open>updateProgress\<close>

text \<open>
  The body of \<^verbatim>\<open>POST /api/playback/progress\<close> and the authenticated user's id. A
  missing \<^verbatim>\<open>sessionId\<close> or \<^verbatim>\<open>episodeId\<close> is \<open>None\<close>.
\<close>

record progress_req =
  p_user :: object_id
  p_sessionId :: "object_id option"
  p_contentId :: object_id
  p_episodeId :: "string option"
  p_currentTime :: number
  p_duration :: number
  p_now :: timestamp

record progress_resp =
  r_progress :: progress_t
  r_completed :: bool

text \<open>The session lookup: by \<^verbatim>\<open>sessionId\<close> when given, else by user, content and episode.\<close>

definition progress_match :: "progress_req \<Rightarrow> playback_session \<Rightarrow> bool" where
  "progress_match r s =
     (case p_sessionId r of
        Some i \<Rightarrow> sess_id s = i
      | None \<Rightarrow> userId s = p_user r \<and> contentId s = p_contentId r
                 \<and> episodeId s = or_null (p_episodeId r))"

text \<open>
  The update of a found session, statement by statement: the new \<^verbatim>\<open>currentTime\<close> is
  stored first, then the duration, and \<^verbatim>\<open>sessionDuration\<close> is increased by
  \<^verbatim>\<open>currentTime - (session.progress.currentTime || 0)\<close>, which reads the field just
  written; then the document is saved.
\<close>

definition touch_session :: "progress_req \<Rightarrow> playback_session \<Rightarrow> playback_session" where
  "touch_session r s =
     (let s1 = s\<lparr>progress := (progress s)\<lparr>currentTime := p_currentTime r\<rparr>\<rparr>;
          s2 = s1\<lparr>progress := (progress s1)\<lparr>duration := p_duration r\<rparr>\<rparr>;
          s3 = s2\<lparr>sessionDuration :=
                    sessionDuration s2 + (p_currentTime r - or_zero (currentTime (progress s2)))\<rparr>
      in pre_save (p_now r) s3)"

definition save_progress :: "progress_req \<Rightarrow> playback_session list
    \<Rightarrow> playback_session list \<times> playback_session" where
  "save_progress r ss =
     (case find (progress_match r) ss of
        None \<Rightarrow>
          (let s = create_session (p_now r) (p_user r) (p_contentId r) (p_episodeId r)
                     (p_currentTime r) (p_duration r) ''auto'' ss
           in (ss @ [s], s))
      | Some s0 \<Rightarrow>
          (let s = touch_session r s0
           in (update_first (progress_match r) (\<lambda>_. s) ss, s)))"

definition updateProgress :: "progress_req \<Rightarrow> db \<Rightarrow> db \<times> (error + progress_resp)" where
  "updateProgress r d =
     (let (ss, s) = save_progress r (sessions d);
          d1 = d\<lparr>sessions := ss\<rparr>;
          d2 = update_user (p_user r)
                 (\<lambda>u. u\<lparr>watchHistory := pull_history (p_contentId r) (watchHistory u)\<rparr>) d1;
          d3 = update_user (p_user r)
                 (\<lambda>u. u\<lparr>watchHistory := push_history
                           \<lparr>h_contentId = p_contentId r, watchedAt = p_now r,
                            h_progress = percentage (progress s), h_completed = completed s\<rparr>
                           (watchHistory u)\<rparr>) d2
      in (d3, Inr \<lparr>r_progress = progress s, r_completed = completed s\<rparr>))"

text \<open>
  playback.routes.js mounts the handler without the validation chain:
  \<^verbatim>\<open>router.post('/progress', playbackController.updateProgress)\<close>.
\<close>

definition post_progress :: "progress_req \<Rightarrow> db \<Rightarrow> db \<times> (error + progress_resp)" where
  "post_progress r d = updateProgress r d"

text \<open>A sequence of progress reports, each applied to the state the previous one left.\<close>

fun run_progress :: "progress_req list \<Rightarrow> db \<Rightarrow> db" where
  "run_progress [] d = d"
| "run_progress (r # rs) d = run_progress rs (fst (updateProgress r d))"

section \<open>startPlayback\<close>

text \<open>
  The body of \<^verbatim>\<open>POST /api/playback/start\<close>, the authenticated user's id and
  \<^verbatim>\<open>req.user.subscription?.plan\<close>.
\<close>

record start_req =
  s_user :: object_id
  s_plan :: "plan option"
  s_contentId :: object_id
  s_episodeId :: "string option"
  s_duration :: number
  s_quality :: "string option"

record start_resp =
  sessionId :: object_id
  resumeFrom :: number
  sr_videoUrl :: "string option"
  sr_quality :: string

text \<open>\<^verbatim>\<open>planHierarchy.indexOf\<close> on \<^verbatim>\<open>['free', 'basic', 'standard', 'premium']\<close>.\<close>

fun plan_index :: "plan \<Rightarrow> nat" where
  "plan_index Free = 0"
| "plan_index Basic = 1"
| "plan_index Standard = 2"
| "plan_index Premium = 3"

text \<open>\<^verbatim>\<open>x || 'free'\<close>.\<close>

definition or_free :: "plan option \<Rightarrow> plan" where
  "or_free p = (case p of None \<Rightarrow> Free | Some q \<Rightarrow> q)"

definition find_content :: "object_id \<Rightarrow> db \<Rightarrow> content option" where
  "find_content cid d = find (\<lambda>c. content_id c = cid) (contents d)"

text \<open>The loop over the seasons: the first episode with the requested id, if any.\<close>

fun find_episode :: "string \<Rightarrow> (string \<times> string option) list list \<Rightarrow> (string \<times> string option) option" where
  "find_episode ep [] = None"
| "find_episode ep (season # rest) =
     (case find (\<lambda>e. fst e = ep) season of
        Some e \<Rightarrow> Some e
      | None \<Rightarrow> find_episode ep rest)"

definition resolve_video :: "content \<Rightarrow> string option \<Rightarrow> string option" where
  "resolve_video c ep =
     (case or_null ep of
        None \<Rightarrow> videoUrl c
      | Some e \<Rightarrow>
          (if ctype c = Series then
             (case find_episode e (seasons c) of Some x \<Rightarrow> snd x | None \<Rightarrow> videoUrl c)
           else videoUrl c))"

definition start_match :: "start_req \<Rightarrow> playback_session \<Rightarrow> bool" where
  "start_match r s =
     (userId s = s_user r \<and> contentId s = s_contentId r
      \<and> episodeId s = or_null (s_episodeId r) \<and> \<not> completed s)"

text \<open>
  The handler returns 404 or 403 before it reads or writes the session collection. With an
  open session of the viewer for the content and episode it answers from that session.
  Without one it calls \<^verbatim>\<open>PlaybackSession.create\<close> with
  \<^verbatim>\<open>device: { type: ..., ip: ... }\<close>. The schema declares \<^verbatim>\<open>device\<close> as
  \<^verbatim>\<open>{ type: String, userAgent: String, ip: String }\<close>, which Mongoose reads as a path of
  type String; the object does not cast to a string, the document is rejected before it
  is stored, and the exception goes to \<^verbatim>\<open>next(error)\<close>. The store the handler leaves is
  the first component of the result.
\<close>

definition startPlayback :: "start_req \<Rightarrow> db \<Rightarrow> db \<times> (error + start_resp)" where
  "startPlayback r d =
     (case find_content (s_contentId r) d of
        None \<Rightarrow> (d, Inl ContentNotFound)
      | Some c \<Rightarrow>
          (if plan_index (or_free (s_plan r)) < plan_index (or_free (subscriptionRequired c))
           then (d, Inl AccessDenied)
           else
             (case find (start_match r) (sessions d) of
                None \<Rightarrow> (d, Inl ServerError)
              | Some s \<Rightarrow>
                  (d, Inr \<lparr>sessionId = sess_id s, resumeFrom = currentTime (progress s),
                          sr_videoUrl = resolve_video c (s_episodeId r), sr_quality = quality s\<rparr>))))"

section \<open>markCompleted\<close>

record complete_req =
  c_user :: object_id
  c_contentId :: object_id
  c_episodeId :: "string option"

definition complete_match :: "complete_req \<Rightarrow> playback_session \<Rightarrow> bool" where
  "complete_match r s =
     (userId s = c_user r \<and> contentId s = c_contentId r \<and> episodeId s = or_null (c_episodeId r))"

text \<open>
  \<^verbatim>\<open>$set\<close> on \<^verbatim>\<open>watchHistory.$[elem]\<close> with the array filter
  \<^verbatim>\<open>'elem.contentId': contentId\<close>: every matching element is rewritten, nothing is
  inserted.
\<close>

definition complete_history :: "object_id \<Rightarrow> history_entry list \<Rightarrow> history_entry list" where
  "complete_history cid h =
     map (\<lambda>e. if h_contentId e = cid then e\<lparr>h_completed := True, h_progress := 100\<rparr> else e) h"

text \<open>\<^verbatim>\<open>findOneAndUpdate\<close> does not run the save hook.\<close>

definition markCompleted :: "complete_req \<Rightarrow> db \<Rightarrow> db \<times> (error + unit)" where
  "markCompleted r d =
     (let d1 = d\<lparr>sessions := update_first (complete_match r)
                   (\<lambda>s. s\<lparr>completed := True, progress := (progress s)\<lparr>percentage := 100\<rparr>\<rparr>)
                   (sessions d)\<rparr>;
          d2 = update_user (c_user r)
                 (\<lambda>u. u\<lparr>watchHistory := complete_history (c_contentId r) (watchHistory u)\<rparr>) d1
      in (d2, Inr ()))"

section \<open>getContinueWatching\<close>

text \<open>
  \<^verbatim>\<open>.sort({ field: -1 })\<close>: descending by the key; documents with equal keys stay in
  collection order. JavaScript's \<^verbatim>\<open>Array.prototype.sort\<close> with the comparator
  \<^verbatim>\<open>(a, b) => b[1] - a[1]\<close> is the same stable descending sort.
\<close>

definition sort_desc :: "('a \<Rightarrow> 'k::linorder) \<Rightarrow> 'a list \<Rightarrow> 'a list" where
  "sort_desc f xs = rev (sort_key f (rev xs))"

text \<open>
  The request of \<^verbatim>\<open>GET /api/playback/continue-watching\<close>: the authenticated user and
  the query string's \<^verbatim>\<open>limit\<close>, which the handler does not read.
\<close>

record cw_req =
  cw_user :: object_id
  cw_limit :: "nat option"

record cw_item =
  cw_content :: "content option"
  cw_progress :: progress_t
  cw_episodeId :: "string option"
  lastWatched :: timestamp

definition continue_filter :: "object_id \<Rightarrow> playback_session \<Rightarrow> bool" where
  "continue_filter uid s =
     (userId s = uid \<and> \<not> completed s
      \<and> 5 < percentage (progress s) \<and> percentage (progress s) < 90)"

definition cw_summary :: "db \<Rightarrow> playback_session \<Rightarrow> cw_item" where
  "cw_summary d s =
     \<lparr>cw_content = find_content (contentId s) d, cw_progress = progress s,
      cw_episodeId = episodeId s, lastWatched = lastUpdated s\<rparr>"

definition continue_sessions :: "object_id \<Rightarrow> db \<Rightarrow> playback_session list" where
  "continue_sessions uid d =
     take 20 (sort_desc lastUpdated (filter (continue_filter uid) (sessions d)))"

definition getContinueWatching :: "cw_req \<Rightarrow> db \<Rightarrow> cw_item list" where
  "getContinueWatching r d = map (cw_summary d) (continue_sessions (cw_user r) d)"

section \<open>Recommendation scorer\<close>

text \<open>
  \<^verbatim>\<open>genreScores\<close> is a JavaScript object \<^verbatim>\<open>{}\<close> used as a dictionary from genre tag to
  score. It is modelled as the list of its own properties in the order of their creation.
  A value is a number, or a string that is not numeric: reading a key the object does not
  own yet gives \<^verbatim>\<open>undefined\<close>, except for the names \<^verbatim>\<open>Object.prototype\<close> defines,
  where it gives the inherited function, and a function plus a number is a string.
\<close>

datatype score = Num number | Text

type_synonym scores = "(string \<times> score) list"

text \<open>The function-valued properties of \<^verbatim>\<open>Object.prototype\<close>.\<close>

definition proto_functions :: "string list" where
  "proto_functions =
     [''constructor'', ''__defineGetter__'', ''__defineSetter__'', ''hasOwnProperty'',
      ''__lookupGetter__'', ''__lookupSetter__'', ''isPrototypeOf'', ''propertyIsEnumerable'',
      ''toString'', ''valueOf'', ''toLocaleString'']"

text \<open>
  \<^verbatim>\<open>(x || 0) + weight\<close> for an own value \<open>x\<close>: a number is added to; a string (never
  empty here) is truthy and is appended to, and stays a string.
\<close>

fun bump :: "score \<Rightarrow> number \<Rightarrow> score" where
  "bump (Num v) w = Num (or_zero v + w)"
| "bump Text w = Text"

text \<open>The same for a key the object does not own.\<close>

definition first_value :: "string \<Rightarrow> number \<Rightarrow> score" where
  "first_value g w = (if g \<in> set proto_functions then Text else Num (0 + w))"

fun put_score :: "string \<Rightarrow> number \<Rightarrow> scores \<Rightarrow> scores" where
  "put_score g w [] = [(g, first_value g w)]"
| "put_score g w ((k, v) # kvs) =
     (if k = g then (k, bump v w) # kvs else (k, v) # put_score g w kvs)"

text \<open>
  \<^verbatim>\<open>genreScores[genre] = (genreScores[genre] || 0) + weight\<close>. The key
  \<^verbatim>\<open>__proto__\<close> is an accessor of \<^verbatim>\<open>Object.prototype\<close>: its setter ignores a value
  that is not an object, so the assignment changes nothing.
\<close>

definition add_score :: "string \<Rightarrow> number \<Rightarrow> scores \<Rightarrow> scores" where
  "add_score g w sc = (if g = ''__proto__'' then sc else put_score g w sc)"

text \<open>
  \<^verbatim>\<open>Object.entries\<close> lists the own keys that are array indices (the decimal numerals of
  the integers from 0 to 4294967294, without leading zeros) first, in ascending numeric
  order, and then the other keys in the order of their creation.
\<close>

definition is_digit :: "char \<Rightarrow> bool" where
  "is_digit c = (c \<in> set ''0123456789'')"

definition digit_value :: "char \<Rightarrow> nat" where
  "digit_value c = length (takeWhile (\<lambda>x. x \<noteq> c) ''0123456789'')"

definition index_value :: "string \<Rightarrow> nat" where
  "index_value s = foldl (\<lambda>n c. 10 * n + digit_value c) 0 s"

definition is_index :: "string \<Rightarrow> bool" where
  "is_index s =
     (s \<noteq> [] \<and> list_all is_digit s \<and> (s = ''0'' \<or> hd s \<noteq> CHR ''0'')
      \<and> index_value s < 4294967295)"

definition entries :: "scores \<Rightarrow> scores" where
  "entries sc =
     sort_key (\<lambda>e. index_value (fst e)) (filter (\<lambda>e. is_index (fst e)) sc)
     @ filter (\<lambda>e. \<not> is_index (fst e)) sc"

text \<open>\<^verbatim>\<open>Math.max(1, 10 - index * 0.5)\<close>.\<close>

definition history_weight :: "nat \<Rightarrow> number" where
  "history_weight i = max 1 (10 - of_nat i * (1 / 2))"

text \<open>
  \<^verbatim>\<open>populate\<close> replaces a content id by its document, or by null when the document is
  gone. The \<^verbatim>\<open>forEach\<close> over the history passes the array index, which also counts the
  entries it skips.
\<close>

fun score_history :: "nat \<Rightarrow> content option list \<Rightarrow> scores \<Rightarrow> scores" where
  "score_history i [] acc = acc"
| "score_history i (None # xs) acc = score_history (Suc i) xs acc"
| "score_history i (Some c # xs) acc =
     score_history (Suc i) xs (fold (\<lambda>g. add_score g (history_weight i)) (genres c) acc)"

fun score_watchlist :: "content option list \<Rightarrow> scores \<Rightarrow> scores" where
  "score_watchlist [] acc = acc"
| "score_watchlist (None # xs) acc = score_watchlist xs acc"
| "score_watchlist (Some c # xs) acc =
     score_watchlist xs (fold (\<lambda>g. add_score g 2) (genres c) acc)"

definition genre_scores :: "content option list \<Rightarrow> content option list \<Rightarrow> scores" where
  "genre_scores hist wl = score_watchlist wl (score_history 0 hist [])"

text \<open>
  \<^verbatim>\<open>Object.entries(scores).sort((a, b) => b[1] - a[1]).slice(0, n).map(([genre]) => genre)\<close>.
  On numbers the comparator is a consistent descending order and the sort is stable. With
  a string score the difference is \<^verbatim>\<open>NaN\<close>, the comparator is not consistent, and the
  order is whatever the JavaScript engine's sort makes of it: the parameter \<open>engine\<close>.
\<close>

fun num_of :: "score \<Rightarrow> number" where
  "num_of (Num v) = v"
| "num_of Text = 0"

definition numeric :: "scores \<Rightarrow> bool" where
  "numeric sc = list_all (\<lambda>e. snd e \<noteq> Text) sc"

definition ranked :: "(scores \<Rightarrow> scores) \<Rightarrow> scores \<Rightarrow> scores" where
  "ranked engine sc =
     (if numeric (entries sc) then sort_desc (\<lambda>e. num_of (snd e)) (entries sc)
      else engine (entries sc))"

definition top_genres :: "(scores \<Rightarrow> scores) \<Rightarrow> nat \<Rightarrow> scores \<Rightarrow> string list" where
  "top_genres engine n sc = map fst (take n (ranked engine sc))"

text \<open>
  \<^verbatim>\<open>.limit(n)\<close> of a query: MongoDB reads a limit of 0 as no limit. The query string's
  \<^verbatim>\<open>limit\<close> is a natural number when present.
\<close>

definition mongo_limit :: "nat \<Rightarrow> 'a list \<Rightarrow> 'a list" where
  "mongo_limit n xs = (if n = 0 then xs else take n xs)"

text \<open>\<^verbatim>\<open>genres: { $in: gs }\<close>: some genre of the document is in the list.\<close>

definition genres_in :: "string list \<Rightarrow> content \<Rightarrow> bool" where
  "genres_in gs c = list_ex (\<lambda>g. g \<in> set gs) (genres c)"

record rec_req =
  rq_user :: object_id
  rq_limit :: "nat option"

record rec_resp =
  rec_data :: "content list"
  basedOn :: "string list"

definition limit_or :: "nat \<Rightarrow> nat option \<Rightarrow> nat" where
  "limit_or dflt l = (case l of None \<Rightarrow> dflt | Some n \<Rightarrow> n)"

definition populated_history :: "user \<Rightarrow> db \<Rightarrow> content option list" where
  "populated_history u d = map (\<lambda>h. find_content (h_contentId h) d) (watchHistory u)"

definition populated_watchlist :: "user \<Rightarrow> db \<Rightarrow> content option list" where
  "populated_watchlist u d = map (\<lambda>i. find_content i d) (watchlist u)"

text \<open>
  \<^verbatim>\<open>watchedIds\<close>: the ids of the completed history entries; an entry whose content is
  gone contributes \<^verbatim>\<open>undefined\<close>, which excludes no document.
\<close>

definition watched_ids :: "user \<Rightarrow> db \<Rightarrow> object_id list" where
  "watched_ids u d =
     List.map_filter (\<lambda>h. map_option content_id (find_content (h_contentId h) d))
       (filter h_completed (watchHistory u))"

definition primary_recs :: "string list \<Rightarrow> object_id list \<Rightarrow> nat \<Rightarrow> db \<Rightarrow> content list" where
  "primary_recs tg wids lmt d =
     (if length tg > 0 then
        mongo_limit lmt
          (sort_desc (\<lambda>c. (views c, imdbRating c))
             (filter (\<lambda>c. genres_in tg c \<and> content_id c \<notin> set wids \<and> status c = Published)
                (contents d)))
      else [])"

definition fill_recs :: "content list \<Rightarrow> object_id list \<Rightarrow> nat \<Rightarrow> db \<Rightarrow> content list" where
  "fill_recs recs wids lmt d =
     (if length recs < lmt then
        recs @ mongo_limit (lmt - length recs)
          (sort_desc (\<lambda>c. (views c, createdAt c))
             (filter (\<lambda>c. content_id c \<notin> set (wids @ map content_id recs) \<and> status c = Published)
                (contents d)))
      else recs)"

text \<open>
  The final \<^verbatim>\<open>recommendations.sort(() => Math.random() - 0.5)\<close> is the parameter
  \<open>shuffle\<close>; \<open>engine\<close> is the parameter of \<open>ranked\<close>. The projection \<^verbatim>\<open>.select(...)\<close> is not modelled: documents are returned
  whole. A missing user document makes \<^verbatim>\<open>user.watchHistory\<close> throw.
\<close>

definition getPersonalizedRecommendations ::
  "(scores \<Rightarrow> scores) \<Rightarrow> (content list \<Rightarrow> content list) \<Rightarrow> rec_req \<Rightarrow> db \<Rightarrow> error + rec_resp" where
  "getPersonalizedRecommendations engine shuffle r d =
     (case find (\<lambda>u. user_id u = rq_user r) (users d) of
        None \<Rightarrow> Inl ServerError
      | Some u \<Rightarrow>
          (let lmt = limit_or 20 (rq_limit r);
               tg = top_genres engine 5
                      (genre_scores (populated_history u d) (populated_watchlist u d));
               wids = watched_ids u d;
               recs = fill_recs (primary_recs tg wids lmt d) wids lmt d
           in Inr \<lparr>rec_data = shuffle recs, basedOn = take 3 tg\<rparr>))"

record pivot_req =
  pv_contentId :: object_id
  pv_limit :: "nat option"

definition getSimilarContent :: "pivot_req \<Rightarrow> db \<Rightarrow> error + content list" where
  "getSimilarContent r d =
     (case find_content (pv_contentId r) d of
        None \<Rightarrow> Inl ContentNotFound
      | Some c \<Rightarrow>
          Inr (mongo_limit (limit_or 12 (pv_limit r))
                 (sort_desc (\<lambda>x. (imdbRating x, views x))
                    (filter (\<lambda>x. content_id x \<noteq> pv_contentId r \<and> ctype x = ctype c
                                 \<and> genres_in (genres c) x \<and> status x = Published)
                       (contents d)))))"

definition getBecauseYouWatched :: "pivot_req \<Rightarrow> db \<Rightarrow> error + (object_id \<times> content list)" where
  "getBecauseYouWatched r d =
     (case find_content (pv_contentId r) d of
        None \<Rightarrow> Inl ContentNotFound
      | Some c \<Rightarrow>
          Inr (content_id c,
               mongo_limit (limit_or 10 (pv_limit r))
                 (sort_desc (\<lambda>x. (imdbRating x, views x))
                    (filter (\<lambda>x. content_id x \<noteq> pv_contentId r \<and> status x = Published
                                 \<and> (genres_in (genres c) x \<or> director x = director c
                                      \<or> list_ex (\<lambda>n. n \<in> set (take 3 (cast_names c))) (cast_names x)))
                       (contents d)))))"

text \<open>getTopPicks counts one per genre occurrence over the resolved history entries.\<close>

fun count_history :: "content option list \<Rightarrow> scores \<Rightarrow> scores" where
  "count_history [] acc = acc"
| "count_history (None # xs) acc = count_history xs acc"
| "count_history (Some c # xs) acc = count_history xs (fold (\<lambda>g. add_score g 1) (genres c) acc)"

definition rated_at_least :: "number \<Rightarrow> content \<Rightarrow> bool" where
  "rated_at_least x c = (case imdbRating c of None \<Rightarrow> False | Some y \<Rightarrow> x \<le> y)"

definition getTopPicks :: "(scores \<Rightarrow> scores) \<Rightarrow> rec_req \<Rightarrow> db \<Rightarrow> error + content list" where
  "getTopPicks engine r d =
     (case find (\<lambda>u. user_id u = rq_user r) (users d) of
        None \<Rightarrow> Inl ServerError
      | Some u \<Rightarrow>
          (let tg = top_genres engine 3 (count_history (populated_history u d) []);
               gs = (if length tg > 0 then tg else [''Drama'', ''Action'', ''Comedy''])
           in Inr (mongo_limit (limit_or 10 (rq_limit r))
                     (sort_desc (\<lambda>x. (imdbRating x, views x))
                        (filter (\<lambda>x. genres_in gs x \<and> status x = Published \<and> rated_at_least 7 x)
                           (contents d))))))"

section \<open>Notions used to state the properties\<close>

abbreviation ids :: "history_entry list \<Rightarrow> object_id list" where
  "ids h \<equiv> map h_contentId h"

text \<open>Most recent first: no entry is older than an entry after it.\<close>

definition recency_ordered :: "history_entry list \<Rightarrow> bool" where
  "recency_ordered h = sorted_wrt (\<lambda>a b. watchedAt b \<le> watchedAt a) h"

text \<open>At most one entry per content, and at most 100 entries.\<close>

definition ledger_ok :: "history_entry list \<Rightarrow> bool" where
  "ledger_ok h = (distinct (map h_contentId h) \<and> length h \<le> 100)"

text \<open>The entry updateProgress pushes: the snapshot of the session it has just saved.\<close>

definition ledger_entry :: "progress_req \<Rightarrow> db \<Rightarrow> history_entry" where
  "ledger_entry r d =
     (let s = snd (save_progress r (sessions d))
      in \<lparr>h_contentId = p_contentId r, watchedAt = p_now r,
          h_progress = percentage (progress s), h_completed = completed s\<rparr>)"





text \<open>The score a dictionary holds for a genre, 0 when it has none; and remembering a key.\<close>

definition score_of :: "scores \<Rightarrow> string \<Rightarrow> number" where
  "score_of sc g = (case map_of sc g of None \<Rightarrow> 0 | Some v \<Rightarrow> num_of v)"


text \<open>
  An ordinary genre tag: not an array index and not a name that \<^verbatim>\<open>Object.prototype\<close>
  defines.
\<close>

definition plain_tag :: "string \<Rightarrow> bool" where
  "plain_tag g = (\<not> is_index g \<and> g \<notin> set proto_functions \<and> g \<noteq> ''__proto__'')"

text \<open>The published part of the catalog.\<close>

definition published :: "db \<Rightarrow> content list" where
  "published d = filter (\<lambda>c. status c = Published) (contents d)"

section \<open>Example data\<close>

text \<open>
  Viewer 1 has watched content 5 up to second 108 of 120 (90 percent, completed), and
  then reports second 54 of 120 for the same content.
\<close>

definition session_done :: playback_session where
  "session_done =
     \<lparr>sess_id = 7, userId = 1, contentId = 5, episodeId = None,
      progress = \<lparr>currentTime = 108, duration = 120, percentage = 90\<rparr>,
      completed = True, quality = ''auto'', lastUpdated = 1000, sessionDuration = 0\<rparr>"

definition viewer :: user where
  "viewer = \<lparr>user_id = 1, user_plan = None, watchlist = [], watchHistory = []\<rparr>"

definition db_done :: db where
  "db_done = \<lparr>sessions = [session_done], users = [viewer], contents = []\<rparr>"

definition report_half :: progress_req where
  "report_half =
     \<lparr>p_user = 1, p_sessionId = None, p_contentId = 5, p_episodeId = None,
      p_currentTime = 54, p_duration = 120, p_now = 2000\<rparr>"

text \<open>
  The same viewer with two ledger entries, and 101 reports for the contents 10 to 110.
\<close>

definition viewer_two :: user where
  "viewer_two =
     \<lparr>user_id = 1, user_plan = None, watchlist = [],
      watchHistory =
        [\<lparr>h_contentId = 6, watchedAt = 900, h_progress = 50, h_completed = False\<rparr>,
         \<lparr>h_contentId = 5, watchedAt = 800, h_progress = 90, h_completed = True\<rparr>]\<rparr>"

definition db_two :: db where
  "db_two = \<lparr>sessions = [session_done], users = [viewer_two], contents = []\<rparr>"

definition report_content :: "object_id \<Rightarrow> progress_req" where
  "report_content c =
     \<lparr>p_user = 1, p_sessionId = None, p_contentId = c, p_episodeId = None,
      p_currentTime = 30, p_duration = 120, p_now = 3000\<rparr>"

definition reports_101 :: "progress_req list" where
  "reports_101 = map report_content [10..<111]"

text \<open>
  A store with the viewer and no session, and the viewer's report of second \<open>t\<close> of 120 for
  content 5.
\<close>

definition viewer_db :: db where
  "viewer_db = \<lparr>sessions = [], users = [viewer], contents = []\<rparr>"

definition report_at :: "number \<Rightarrow> timestamp \<Rightarrow> progress_req" where
  "report_at t now =
     \<lparr>p_user = 1, p_sessionId = None, p_contentId = 5, p_episodeId = None,
      p_currentTime = t, p_duration = 120, p_now = now\<rparr>"

text \<open>
  A film that requires the premium plan, and the viewer on the free plan asking to play it.
\<close>

definition premium_film :: content where
  "premium_film =
     \<lparr>content_id = 5, ctype = Movie, genres = [''Drama''], director = None, cast_names = [],
      imdbRating = Some 8, views = 10, createdAt = 1, status = Published,
      subscriptionRequired = Some Premium, videoUrl = Some ''film.m3u8'', seasons = []\<rparr>"

definition db_premium :: db where
  "db_premium = \<lparr>sessions = [], users = [viewer], contents = [premium_film]\<rparr>"

definition start_free :: start_req where
  "start_free =
     \<lparr>s_user = 1, s_plan = Some Free, s_contentId = 5, s_episodeId = None,
      s_duration = 120, s_quality = None\<rparr>"

text \<open>The viewer marks content \<open>c\<close> as completed.\<close>

definition complete_content :: "object_id \<Rightarrow> complete_req" where
  "complete_content c = \<lparr>c_user = 1, c_contentId = c, c_episodeId = None\<rparr>"

text \<open>
  Two open sessions of the viewer, at 40 and at 60 percent, and a continue-watching
  request whose query string asks for one item.
\<close>

definition watching :: "object_id \<Rightarrow> object_id \<Rightarrow> number \<Rightarrow> timestamp \<Rightarrow> playback_session" where
  "watching i c t u =
     \<lparr>sess_id = i, userId = 1, contentId = c, episodeId = None,
      progress = \<lparr>currentTime = t, duration = 100, percentage = t\<rparr>,
      completed = False, quality = ''auto'', lastUpdated = u, sessionDuration = 0\<rparr>"

definition db_watching :: db where
  "db_watching =
     \<lparr>sessions = [watching 1 5 40 1000, watching 2 6 60 2000], users = [viewer], contents = []\<rparr>"

definition cw_one :: cw_req where
  "cw_one = \<lparr>cw_user = 1, cw_limit = Some 1\<rparr>"

text \<open>Two dramas, and a title that is both action and comedy.\<close>

definition drama_a :: content where
  "drama_a =
     \<lparr>content_id = 1, ctype = Movie, genres = [''Drama''], director = None, cast_names = [],
      imdbRating = Some 8, views = 10, createdAt = 1, status = Published,
      subscriptionRequired = None, videoUrl = Some ''a.m3u8'', seasons = []\<rparr>"

definition drama_b :: content where
  "drama_b = drama_a\<lparr>content_id := 2, videoUrl := Some ''b.m3u8''\<rparr>"

definition action_comedy :: content where
  "action_comedy = drama_a\<lparr>content_id := 3, genres := [''Action'', ''Comedy'']\<rparr>"

text \<open>
  A catalog of twelve published titles, the viewer with no history and no watchlist, and
  the request for ten personalized recommendations.
\<close>

definition catalog_item :: "nat \<Rightarrow> content" where
  "catalog_item i =
     \<lparr>content_id = 100 + i, ctype = Movie, genres = [''Drama''], director = None, cast_names = [],
      imdbRating = None, views = i, createdAt = i, status = Published,
      subscriptionRequired = None, videoUrl = None, seasons = []\<rparr>"

definition db_catalog :: db where
  "db_catalog = \<lparr>sessions = [], users = [viewer], contents = map catalog_item [0..<12]\<rparr>"

definition rec_ten :: rec_req where
  "rec_ten = \<lparr>rq_user = 1, rq_limit = Some 10\<rparr>"






section \<open>Properties of the session store\<close>

lemma length_update_first [simp]: "length (update_first P f xs) = length xs"
  by (induction xs) auto

lemma nth_update_first:
  "i < length xs \<Longrightarrow> update_first P f xs ! i = xs ! i \<or> (P (xs ! i) \<and> update_first P f xs ! i = f (xs ! i))"
proof (induction xs arbitrary: i)
  case Nil
  then show ?case by simp
next
  case (Cons x xs)
  then show ?case by (cases i) auto
qed

lemma find_Some_nth: "find P xs = Some y \<Longrightarrow> P y"
  by (induction xs) (auto split: if_splits)

lemma nth_update_first_const:
  assumes "find P xs = Some y" and "i < length xs"
  shows "update_first P (\<lambda>_. z) xs ! i = xs ! i \<or> (xs ! i = y \<and> update_first P (\<lambda>_. z) xs ! i = z)"
  using assms
proof (induction xs arbitrary: i)
  case Nil
  then show ?case by simp
next
  case (Cons x xs)
  then show ?case by (cases i) (auto split: if_splits)
qed

lemma pre_save_completed: "completed s \<Longrightarrow> completed (pre_save now s)"
  by (simp add: pre_save_def Let_def)

lemma pre_save_sess_id [simp]: "sess_id (pre_save now s) = sess_id s"
  by (simp add: pre_save_def Let_def)

lemma touch_session_completed: "completed s \<Longrightarrow> completed (touch_session r s)"
  by (simp add: touch_session_def Let_def pre_save_completed)

lemma touch_session_sess_id [simp]: "sess_id (touch_session r s) = sess_id s"
  by (simp add: touch_session_def Let_def)

lemma save_progress_length: "length ss \<le> length (fst (save_progress r ss))"
  by (simp add: save_progress_def Let_def split: option.splits)

lemma save_progress_keeps:
  assumes "i < length ss"
  shows "sess_id (fst (save_progress r ss) ! i) = sess_id (ss ! i)
         \<and> (completed (ss ! i) \<longrightarrow> completed (fst (save_progress r ss) ! i))"
proof (cases "find (progress_match r) ss")
  case None
  then show ?thesis using assms by (simp add: save_progress_def Let_def nth_append)
next
  case (Some s0)
  from nth_update_first_const [OF Some assms, of "touch_session r s0"]
  show ?thesis using Some
    by (auto simp: save_progress_def Let_def touch_session_completed)
qed

lemma sessions_update_user [simp]: "sessions (update_user uid f d) = sessions d"
  by (simp add: update_user_def)

lemma sessions_updateProgress:
  "sessions (fst (updateProgress r d)) = fst (save_progress r (sessions d))"
  by (simp add: updateProgress_def Let_def split: prod.splits)

lemma run_progress_keeps:
  "i < length (sessions d) \<Longrightarrow>
   i < length (sessions (run_progress rs d))
   \<and> sess_id (sessions (run_progress rs d) ! i) = sess_id (sessions d ! i)
   \<and> (completed (sessions d ! i) \<longrightarrow> completed (sessions (run_progress rs d) ! i))"
proof (induction rs arbitrary: d)
  case Nil
  then show ?case by simp
next
  case (Cons r rs)
  let ?d1 = "fst (updateProgress r d)"
  have len: "i < length (sessions ?d1)"
    using Cons.prems save_progress_length [of "sessions d" r]
    by (simp add: sessions_updateProgress)
  have step: "sess_id (sessions ?d1 ! i) = sess_id (sessions d ! i)
              \<and> (completed (sessions d ! i) \<longrightarrow> completed (sessions ?d1 ! i))"
    using save_progress_keeps [OF Cons.prems, of r] by (simp add: sessions_updateProgress)
  from Cons.IH [OF len] step show ?case by simp
qed

lemmas progress_eval = updateProgress_def save_progress_def touch_session_def pre_save_def
  progress_match_def or_null_def or_zero_def update_user_def pull_history_def push_history_def
  create_session_def new_id_def Let_def

text \<open>
  C1 (monotonic completion). Take any store, any session of it (the document at position
  \<open>i\<close> of the collection) whose \<open>completed\<close> flag is set, and any sequence of progress
  reports, whatever sessions they address and whatever percentages they carry. After the
  whole sequence the same document is still at position \<open>i\<close>, with the same id, and its
  \<open>completed\<close> flag is still set.
\<close>

theorem completed_monotonic:
  "i < length (sessions d) \<Longrightarrow> completed (sessions d ! i) \<Longrightarrow>
   i < length (sessions (run_progress rs d))
   \<and> sess_id (sessions (run_progress rs d) ! i) = sess_id (sessions d ! i)
   \<and> completed (sessions (run_progress rs d) ! i)"
  using run_progress_keeps [of i d rs] by simp

theorem completed_monotonic_witness:
  "0 < length (sessions db_done) \<and> completed (sessions db_done ! 0)
   \<and> percentage (progress (sessions (run_progress [report_half] db_done) ! 0)) = 45
   \<and> completed (sessions (run_progress [report_half] db_done) ! 0)"
proof -
  have h1: "0 < length (sessions db_done)" by (simp add: db_done_def)
  have h2: "completed (sessions db_done ! 0)" by (simp add: db_done_def session_done_def)
  have pct: "percentage (progress (sessions (run_progress [report_half] db_done) ! 0)) = 45"
    by (simp add: db_done_def session_done_def report_half_def viewer_def progress_eval)
  from completed_monotonic [OF h1 h2, of "[report_half]"] h1 h2 pct show ?thesis by simp
qed

section \<open>Properties of the watch history ledger\<close>

lemma upsert_history_eq:
  "upsert_history e h = e # take 99 (pull_history (h_contentId e) h)"
  by (simp add: upsert_history_def push_history_def take_Cons')

lemma length_upsert_le: "length (upsert_history e h) \<le> 100"
  by (simp add: upsert_history_def push_history_def)

lemma ids_pull: "ids (pull_history c h) = filter (\<lambda>x. x \<noteq> c) (ids h)"
  by (simp add: pull_history_def filter_map comp_def)

lemma distinct_upsert:
  assumes "distinct (ids h)"
  shows "distinct (ids (upsert_history e h))"
proof -
  have d: "distinct (ids (pull_history (h_contentId e) h))"
    using assms by (simp add: ids_pull)
  have n: "h_contentId e \<notin> set (ids (pull_history (h_contentId e) h))"
    by (simp add: ids_pull)
  have "set (take 99 (ids (pull_history (h_contentId e) h))) \<subseteq> set (ids (pull_history (h_contentId e) h))"
    by (rule set_take_subset)
  with n have "h_contentId e \<notin> set (take 99 (ids (pull_history (h_contentId e) h)))" by blast
  with d show ?thesis by (simp add: upsert_history_eq take_map [symmetric] del: set_map)
qed

lemma pull_absent: "c \<notin> set (ids h) \<Longrightarrow> pull_history c h = h"
  by (induction h) (auto simp: pull_history_def)

lemma length_pull_present:
  "distinct (ids h) \<Longrightarrow> c \<in> set (ids h) \<Longrightarrow> Suc (length (pull_history c h)) = length h"
proof (induction h)
  case Nil
  then show ?case by simp
next
  case (Cons a h)
  show ?case
  proof (cases "h_contentId a = c")
    case True
    with Cons.prems have "c \<notin> set (ids h)" by auto
    then have "pull_history c h = h" by (rule pull_absent)
    with True show ?thesis by (simp add: pull_history_def)
  next
    case False
    with Cons show ?thesis by (auto simp: pull_history_def)
  qed
qed

lemma recency_pull: "recency_ordered h \<Longrightarrow> recency_ordered (pull_history c h)"
  by (simp add: recency_ordered_def pull_history_def sorted_wrt_filter)

lemma recency_take: "recency_ordered h \<Longrightarrow> recency_ordered (take n h)"
  by (simp add: recency_ordered_def sorted_wrt_take)

lemma recency_upsert:
  assumes "recency_ordered h" and "\<forall>x \<in> set h. watchedAt x \<le> watchedAt e"
  shows "recency_ordered (upsert_history e h)"
proof -
  have r: "recency_ordered (take 99 (pull_history (h_contentId e) h))"
    using assms(1) by (simp add: recency_pull recency_take)
  have "set (take 99 (pull_history (h_contentId e) h)) \<subseteq> set h"
    using set_take_subset [of 99 "pull_history (h_contentId e) h"] by (auto simp: pull_history_def)
  with assms(2) have "\<forall>x \<in> set (take 99 (pull_history (h_contentId e) h)). watchedAt x \<le> watchedAt e"
    by blast
  with r show ?thesis by (simp add: upsert_history_eq recency_ordered_def)
qed

lemma upsert_new_length:
  "h_contentId e \<notin> set (ids h) \<Longrightarrow> length (upsert_history e h) = min 100 (Suc (length h))"
  by (simp add: upsert_history_def push_history_def pull_absent)

lemma upsert_evicts_tail:
  "h_contentId e \<notin> set (ids h) \<Longrightarrow> length h = 100 \<Longrightarrow> upsert_history e h = e # butlast h"
  by (simp add: upsert_history_eq pull_absent butlast_conv_take)

lemma upsert_present:
  assumes "distinct (ids h)" and "length h \<le> 100" and "h_contentId e \<in> set (ids h)"
  shows "length (upsert_history e h) = length h \<and> upsert_history e h ! 0 = e
         \<and> upsert_history e h = e # pull_history (h_contentId e) h"
proof -
  from length_pull_present [OF assms(1) assms(3)] assms(2)
  have "length (pull_history (h_contentId e) h) \<le> 99"
    and "Suc (length (pull_history (h_contentId e) h)) = length h" by simp_all
  then show ?thesis by (simp add: upsert_history_eq)
qed

lemma ids_upsert_subset: "set (ids (upsert_history e h)) \<subseteq> insert (h_contentId e) (set (ids h))"
proof -
  have "set (take 99 (pull_history (h_contentId e) h)) \<subseteq> set h"
    using set_take_subset [of 99 "pull_history (h_contentId e) h"] by (auto simp: pull_history_def)
  then show ?thesis by (auto simp: upsert_history_eq)
qed


lemma find_update_first_key:
  assumes "\<And>x. key (f x) = key x"
  shows "find (\<lambda>x. key x = k) (update_first (\<lambda>x. key x = j) f xs)
         = (if k = j then map_option f (find (\<lambda>x. key x = k) xs) else find (\<lambda>x. key x = k) xs)"
  by (induction xs) (auto simp: assms)

lemma history_of_update_user:
  assumes "\<And>u. user_id (f u) = user_id u"
  shows "history_of k (update_user uid f d)
         = (if k = uid then
              (case find (\<lambda>u. user_id u = k) (users d) of None \<Rightarrow> [] | Some u \<Rightarrow> watchHistory (f u))
            else history_of k d)"
  using find_update_first_key [of user_id f k uid "users d", OF assms]
  by (auto simp: history_of_def update_user_def split: option.splits)

lemma users_sessions_update [simp]: "users (d\<lparr>sessions := ss\<rparr>) = users d"
  by simp

lemma find_user_update_user:
  assumes "\<And>u. user_id (f u) = user_id u"
  shows "find (\<lambda>u. user_id u = k) (users (update_user uid f d))
         = (if k = uid then map_option f (find (\<lambda>u. user_id u = k) (users d))
            else find (\<lambda>u. user_id u = k) (users d))"
  using find_update_first_key [of user_id f k uid "users d", OF assms]
  by (simp add: update_user_def)

lemma find_user_updateProgress:
  "find (\<lambda>u. user_id u = k) (users (fst (updateProgress r d)))
   = (if k = p_user r then
        map_option (\<lambda>u. u\<lparr>watchHistory := upsert_history (ledger_entry r d) (watchHistory u)\<rparr>)
          (find (\<lambda>u. user_id u = k) (users d))
      else find (\<lambda>u. user_id u = k) (users d))"
  by (cases "find (\<lambda>u. user_id u = p_user r) (users d)")
     (auto simp: updateProgress_def ledger_entry_def upsert_history_def Let_def
        find_user_update_user split: prod.splits)

lemma history_updateProgress:
  "history_of k (fst (updateProgress r d))
   = (if k = p_user r \<and> find (\<lambda>u. user_id u = k) (users d) \<noteq> None
      then upsert_history (ledger_entry r d) (history_of k d) else history_of k d)"
  by (auto simp: history_of_def find_user_updateProgress split: option.splits)

lemma entry_content [simp]: "h_contentId (ledger_entry r d) = p_contentId r"
  by (simp add: ledger_entry_def Let_def)

lemma ledger_ok_upsert: "ledger_ok h \<Longrightarrow> ledger_ok (upsert_history e h)"
  by (simp add: ledger_ok_def distinct_upsert length_upsert_le)

lemma ledger_ok_run: "ledger_ok (history_of k d) \<Longrightarrow> ledger_ok (history_of k (run_progress rs d))"
proof (induction rs arbitrary: d)
  case Nil
  then show ?case by simp
next
  case (Cons r rs)
  have "ledger_ok (history_of k (fst (updateProgress r d)))"
    using Cons.prems by (auto simp: history_updateProgress ledger_ok_upsert)
  from Cons.IH [OF this] show ?case by simp
qed

lemma run_new_contents:
  assumes "find (\<lambda>u. user_id u = k) (users d) \<noteq> None"
    and "\<forall>r \<in> set rs. p_user r = k"
    and "distinct (map p_contentId rs)"
    and "set (map p_contentId rs) \<inter> set (ids (history_of k d)) = {}"
    and "length (history_of k d) \<le> 100"
  shows "length (history_of k (run_progress rs d)) = min 100 (length (history_of k d) + length rs)"
  using assms
proof (induction rs arbitrary: d)
  case Nil
  then show ?case by simp
next
  case (Cons r rs)
  let ?d1 = "fst (updateProgress r d)"
  let ?h = "history_of k d"
  from Cons.prems have pk: "p_user r = k" by simp
  have h1: "history_of k ?d1 = upsert_history (ledger_entry r d) ?h"
    using Cons.prems(1) pk by (simp add: history_updateProgress)
  have new: "p_contentId r \<notin> set (ids ?h)" using Cons.prems(4) by auto
  have len1: "length (history_of k ?d1) = min 100 (Suc (length ?h))"
    using new by (simp add: h1 upsert_new_length)
  have u1: "find (\<lambda>u. user_id u = k) (users ?d1) \<noteq> None"
    using Cons.prems(1) by (auto simp: find_user_updateProgress)
  have sub: "set (ids (history_of k ?d1)) \<subseteq> insert (p_contentId r) (set (ids ?h))"
    using ids_upsert_subset [of "ledger_entry r d" ?h] by (simp add: h1)
  have disj: "set (map p_contentId rs) \<inter> set (ids (history_of k ?d1)) = {}"
  proof -
    have a: "p_contentId r \<notin> set (map p_contentId rs)" using Cons.prems(3) by simp
    have b: "set (map p_contentId rs) \<inter> set (ids ?h) = {}" using Cons.prems(4) by auto
    from a b sub show ?thesis by blast
  qed
  have "length (history_of k (run_progress rs ?d1))
        = min 100 (length (history_of k ?d1) + length rs)"
    using Cons.IH [OF u1 _ _ disj] Cons.prems(2,3) len1 by simp
  with len1 show ?case by simp
qed


text \<open>
  C3 (ledger upsert). For a viewer \<open>uid\<close> who exists: a progress report of that viewer
  turns the ledger \<open>h\<close> into the new entry followed by the first 99 of the old entries
  for other contents. So every old entry for the content is gone and the fresh one is at
  position 0; the length never exceeds 100; a ledger with one entry per content stays so;
  a ledger ordered most recent first stays so when the clock has not gone back; a full
  ledger of 100 other contents loses exactly its last entry; and a content already in a
  well-formed ledger moves to position 0 without a change of length. Over any sequence of
  reports (of any viewers) the ledger keeps at most one entry per content and at most 100
  entries; and after \<open>n\<close> reports of the viewer for pairwise distinct contents that are
  not yet in the ledger it has \<open>min 100 (length h + n)\<close> entries, hence exactly 100 once
  \<open>n\<close> is 101 or more.
\<close>

theorem ledger_upsert:
  assumes "find (\<lambda>u. user_id u = uid) (users d) \<noteq> None"
  shows
    "(p_user r = uid \<longrightarrow>
       (let h = history_of uid d; h' = history_of uid (fst (updateProgress r d));
            e = ledger_entry r d
        in h' = e # take 99 (filter (\<lambda>x. h_contentId x \<noteq> p_contentId r) h)
           \<and> h_contentId e = p_contentId r \<and> watchedAt e = p_now r
           \<and> length h' \<le> 100
           \<and> (distinct (ids h) \<longrightarrow> distinct (ids h'))
           \<and> (recency_ordered h \<and> (\<forall>x \<in> set h. watchedAt x \<le> p_now r) \<longrightarrow> recency_ordered h')
           \<and> (p_contentId r \<notin> set (ids h) \<and> length h = 100 \<longrightarrow> h' = e # butlast h)
           \<and> (distinct (ids h) \<and> length h \<le> 100 \<and> p_contentId r \<in> set (ids h)
                \<longrightarrow> length h' = length h \<and> h' ! 0 = e)))
     \<and> (ledger_ok (history_of uid d) \<longrightarrow> ledger_ok (history_of uid (run_progress rs d)))
     \<and> ((\<forall>q \<in> set rs. p_user q = uid) \<and> distinct (map p_contentId rs)
          \<and> set (map p_contentId rs) \<inter> set (ids (history_of uid d)) = {}
          \<and> length (history_of uid d) \<le> 100
         \<longrightarrow> length (history_of uid (run_progress rs d))
             = min 100 (length (history_of uid d) + length rs))"
proof -
  let ?h = "history_of uid d"
  let ?e = "ledger_entry r d"
  have step: "p_user r = uid \<Longrightarrow> history_of uid (fst (updateProgress r d)) = upsert_history ?e ?h"
    using assms by (simp add: history_updateProgress)
  have w: "watchedAt ?e = p_now r" by (simp add: ledger_entry_def Let_def)
  have one: "p_user r = uid \<longrightarrow>
       (let h = ?h; h' = history_of uid (fst (updateProgress r d)); e = ?e
        in h' = e # take 99 (filter (\<lambda>x. h_contentId x \<noteq> p_contentId r) h)
           \<and> h_contentId e = p_contentId r \<and> watchedAt e = p_now r
           \<and> length h' \<le> 100
           \<and> (distinct (ids h) \<longrightarrow> distinct (ids h'))
           \<and> (recency_ordered h \<and> (\<forall>x \<in> set h. watchedAt x \<le> p_now r) \<longrightarrow> recency_ordered h')
           \<and> (p_contentId r \<notin> set (ids h) \<and> length h = 100 \<longrightarrow> h' = e # butlast h)
           \<and> (distinct (ids h) \<and> length h \<le> 100 \<and> p_contentId r \<in> set (ids h)
                \<longrightarrow> length h' = length h \<and> h' ! 0 = e))"
  proof
    assume pu: "p_user r = uid"
    note s = step [OF pu]
    have c1: "upsert_history ?e ?h = ?e # take 99 (filter (\<lambda>x. h_contentId x \<noteq> p_contentId r) ?h)"
      using upsert_history_eq [of ?e ?h] by (simp add: pull_history_def)
    have c4: "length (upsert_history ?e ?h) \<le> 100" by (rule length_upsert_le)
    have c5: "distinct (ids ?h) \<longrightarrow> distinct (ids (upsert_history ?e ?h))"
      using distinct_upsert [of ?h ?e] by blast
    have c6: "recency_ordered ?h \<and> (\<forall>x \<in> set ?h. watchedAt x \<le> p_now r)
              \<longrightarrow> recency_ordered (upsert_history ?e ?h)"
      using recency_upsert [of ?h ?e] w by simp
    have c7: "p_contentId r \<notin> set (ids ?h) \<and> length ?h = 100
              \<longrightarrow> upsert_history ?e ?h = ?e # butlast ?h"
      using upsert_evicts_tail [of ?e ?h] by simp
    have c8: "distinct (ids ?h) \<and> length ?h \<le> 100 \<and> p_contentId r \<in> set (ids ?h)
              \<longrightarrow> length (upsert_history ?e ?h) = length ?h \<and> upsert_history ?e ?h ! 0 = ?e"
    proof
      assume a: "distinct (ids ?h) \<and> length ?h \<le> 100 \<and> p_contentId r \<in> set (ids ?h)"
      then have "h_contentId ?e \<in> set (ids ?h)" by simp
      with a upsert_present [of ?h ?e]
      show "length (upsert_history ?e ?h) = length ?h \<and> upsert_history ?e ?h ! 0 = ?e" by blast
    qed
    from c1 c4 c5 c6 c7 c8 w show "let h = ?h; h' = history_of uid (fst (updateProgress r d)); e = ?e
        in h' = e # take 99 (filter (\<lambda>x. h_contentId x \<noteq> p_contentId r) h)
           \<and> h_contentId e = p_contentId r \<and> watchedAt e = p_now r
           \<and> length h' \<le> 100
           \<and> (distinct (ids h) \<longrightarrow> distinct (ids h'))
           \<and> (recency_ordered h \<and> (\<forall>x \<in> set h. watchedAt x \<le> p_now r) \<longrightarrow> recency_ordered h')
           \<and> (p_contentId r \<notin> set (ids h) \<and> length h = 100 \<longrightarrow> h' = e # butlast h)
           \<and> (distinct (ids h) \<and> length h \<le> 100 \<and> p_contentId r \<in> set (ids h)
                \<longrightarrow> length h' = length h \<and> h' ! 0 = e)"
      unfolding Let_def s by simp
  qed
  have two: "ledger_ok ?h \<longrightarrow> ledger_ok (history_of uid (run_progress rs d))"
    using ledger_ok_run [of uid d rs] by blast
  have three: "(\<forall>q \<in> set rs. p_user q = uid) \<and> distinct (map p_contentId rs)
          \<and> set (map p_contentId rs) \<inter> set (ids ?h) = {} \<and> length ?h \<le> 100
         \<longrightarrow> length (history_of uid (run_progress rs d)) = min 100 (length ?h + length rs)"
    using run_new_contents [OF assms, of rs] by blast
  from one two three show ?thesis by blast
qed

theorem ledger_upsert_witness:
  "history_of 1 (fst (updateProgress report_half db_two))
     = [\<lparr>h_contentId = 5, watchedAt = 2000, h_progress = 45, h_completed = True\<rparr>,
        \<lparr>h_contentId = 6, watchedAt = 900, h_progress = 50, h_completed = False\<rparr>]
   \<and> length (history_of 1 (run_progress reports_101 db_two)) = 100"
proof -
  have u: "find (\<lambda>u. user_id u = 1) (users db_two) \<noteq> None"
    by (simp add: db_two_def viewer_two_def)
  have h: "history_of 1 db_two = watchHistory viewer_two"
    by (simp add: history_of_def db_two_def viewer_two_def)
  have e: "ledger_entry report_half db_two
           = \<lparr>h_contentId = 5, watchedAt = 2000, h_progress = 45, h_completed = True\<rparr>"
    by (simp add: ledger_entry_def db_two_def session_done_def report_half_def progress_eval)
  have p: "p_user report_half = 1" by (simp add: report_half_def)
  have a1: "\<forall>q \<in> set reports_101. p_user q = 1"
    by (simp add: reports_101_def report_content_def)
  have m: "map p_contentId reports_101 = [10..<111]"
    by (simp add: reports_101_def report_content_def comp_def)
  have a2: "distinct (map p_contentId reports_101)" by (simp add: m)
  have i: "set (ids (history_of 1 db_two)) = {6, 5}"
    by (simp only: h) (simp add: viewer_two_def)
  have a3: "set (map p_contentId reports_101) \<inter> set (ids (history_of 1 db_two)) = {}"
    by (simp only: m i set_upt) auto
  have a4: "length (history_of 1 db_two) \<le> 100"
    by (simp only: h) (simp add: viewer_two_def)
  have l: "length reports_101 = 101" by (simp add: reports_101_def)
  note T = ledger_upsert [OF u, of report_half reports_101]
  from T p have "history_of 1 (fst (updateProgress report_half db_two))
      = ledger_entry report_half db_two
        # take 99 (filter (\<lambda>x. h_contentId x \<noteq> p_contentId report_half) (history_of 1 db_two))"
    by (simp add: Let_def)
  then have c1: "history_of 1 (fst (updateProgress report_half db_two))
     = [\<lparr>h_contentId = 5, watchedAt = 2000, h_progress = 45, h_completed = True\<rparr>,
        \<lparr>h_contentId = 6, watchedAt = 900, h_progress = 50, h_completed = False\<rparr>]"
    by (simp only: e h) (simp add: viewer_two_def report_half_def)?
  from T a1 a2 a3 a4 have "length (history_of 1 (run_progress reports_101 db_two))
      = min 100 (length (history_of 1 db_two) + length reports_101)"
    by blast
  then have c2: "length (history_of 1 (run_progress reports_101 db_two)) = 100"
    by (simp only: l h) (simp add: viewer_two_def)?
  from c1 c2 show ?thesis by simp
qed

section \<open>Properties of updateProgress\<close>

lemma touch_session_sessionDuration:
  "sessionDuration (touch_session r s) = sessionDuration s"
  by (simp add: touch_session_def pre_save_def or_zero_def Let_def)

text \<open>
  C2 (watch-time accumulation), evaluated on the code. The viewer reports second 10 and
  then second 50 of the same content. The second report finds the session at second 10, so
  a forward delta of 40 is due; the handler has already overwritten \<open>currentTime\<close> when it
  computes the delta, adds \<open>50 - 50\<close>, and \<open>sessionDuration\<close> stays 0. By
  \<open>touch_session_sessionDuration\<close> no report ever changes \<open>sessionDuration\<close>.
\<close>

theorem sessionDuration_forward_seek:
  "currentTime (progress (sessions (run_progress [report_at 10 1000] viewer_db) ! 0)) = 10
   \<and> currentTime (progress (sessions (run_progress [report_at 10 1000, report_at 50 2000] viewer_db) ! 0)) = 50
   \<and> sessionDuration (sessions (run_progress [report_at 10 1000] viewer_db) ! 0) = 0
   \<and> sessionDuration (sessions (run_progress [report_at 10 1000, report_at 50 2000] viewer_db) ! 0) = 0"
  by (simp add: viewer_db_def viewer_def report_at_def progress_eval)

text \<open>
  C4 (InvalidProgress), the claim refuted: a report with the negative time \<open>-5\<close> is
  answered with success, and both the session and the ledger are rewritten with it.
\<close>

theorem invalid_progress_accepted:
  "post_progress (report_at (-5) 2000) db_done
   = (\<lparr>sessions = [session_done\<lparr>progress := \<lparr>currentTime = -5, duration = 120, percentage = - (25 / 6)\<rparr>,
                                  lastUpdated := 2000\<rparr>],
       users = [viewer\<lparr>watchHistory :=
                  [\<lparr>h_contentId = 5, watchedAt = 2000, h_progress = - (25 / 6), h_completed = True\<rparr>]\<rparr>],
       contents = []\<rparr>,
      Inr \<lparr>r_progress = \<lparr>currentTime = -5, duration = 120, percentage = - (25 / 6)\<rparr>,
           r_completed = True\<rparr>)"
  by (simp add: post_progress_def db_done_def session_done_def viewer_def report_at_def progress_eval)

lemma update_first_const_mem: "find P xs = Some y \<Longrightarrow> z \<in> set (update_first P (\<lambda>_. z) xs)"
  by (induction xs) (auto split: if_splits)

lemma saved_session_stored: "snd (save_progress r ss) \<in> set (fst (save_progress r ss))"
  by (auto simp: save_progress_def Let_def update_first_const_mem split: option.splits)

lemma pre_save_times [simp]:
  "currentTime (progress (pre_save now s)) = currentTime (progress s)"
  "duration (progress (pre_save now s)) = duration (progress s)"
  by (simp_all add: pre_save_def Let_def)

lemma saved_session_times:
  "currentTime (progress (snd (save_progress r ss))) = p_currentTime r
   \<and> duration (progress (snd (save_progress r ss))) = p_duration r"
  by (simp add: save_progress_def create_session_def touch_session_def Let_def split: option.splits)

lemma updateProgress_response:
  "snd (updateProgress r d)
   = Inr \<lparr>r_progress = progress (snd (save_progress r (sessions d))),
          r_completed = completed (snd (save_progress r (sessions d)))\<rparr>"
  by (simp add: updateProgress_def Let_def split: prod.splits)

lemma touch_session_percentage:
  "percentage (progress (touch_session r s))
   = (if 0 < p_duration r then p_currentTime r / p_duration r * 100 else percentage (progress s))"
  by (simp add: touch_session_def pre_save_def Let_def)

lemma touch_session_completed_eq:
  "completed (touch_session r s)
   = (completed s \<or> (0 < p_duration r \<and> 90 \<le> p_currentTime r / p_duration r * 100))"
  by (auto simp: touch_session_def pre_save_def Let_def)

lemma saved_session_percentage:
  "percentage (progress (snd (save_progress r ss)))
   = (if 0 < p_duration r then p_currentTime r / p_duration r * 100
      else (case find (progress_match r) ss of None \<Rightarrow> 0 | Some s0 \<Rightarrow> percentage (progress s0)))"
  by (simp add: save_progress_def create_session_def pre_save_def Let_def touch_session_percentage
      split: option.splits)

lemma saved_session_completed:
  "completed (snd (save_progress r ss))
   = ((case find (progress_match r) ss of None \<Rightarrow> False | Some s0 \<Rightarrow> completed s0)
      \<or> (0 < p_duration r \<and> 90 \<le> percentage (progress (snd (save_progress r ss)))))"
  by (auto simp: save_progress_def create_session_def pre_save_def touch_session_def Let_def
      split: option.splits)

text \<open>
  C4 as amended: the route applies no validation and the handler has no range check. Every
  report is answered with success, whatever the sign of its numbers and whatever their
  relation. The session it saves is in the store afterwards and carries exactly the
  reported \<open>currentTime\<close> and \<open>duration\<close>. The percentage is recomputed as
  \<open>currentTime / duration * 100\<close> only when the duration is positive; otherwise it is
  what the session had (0 for a new session). The session is completed afterwards exactly
  when it was before or the duration is positive and the new percentage is at least 90.
  For a viewer who exists the ledger is upserted: the snapshot of the saved session is at
  its head, followed by the first 99 of the old entries for other contents.
\<close>

theorem progress_never_rejected:
  "(let s = snd (save_progress r (sessions d));
        found = find (progress_match r) (sessions d)
    in snd (post_progress r d) = Inr \<lparr>r_progress = progress s, r_completed = completed s\<rparr>
       \<and> s \<in> set (sessions (fst (post_progress r d)))
       \<and> currentTime (progress s) = p_currentTime r
       \<and> duration (progress s) = p_duration r
       \<and> percentage (progress s)
           = (if 0 < p_duration r then p_currentTime r / p_duration r * 100
              else (case found of None \<Rightarrow> 0 | Some s0 \<Rightarrow> percentage (progress s0)))
       \<and> completed s
           = ((case found of None \<Rightarrow> False | Some s0 \<Rightarrow> completed s0)
              \<or> (0 < p_duration r \<and> 90 \<le> percentage (progress s)))
       \<and> (find (\<lambda>u. user_id u = p_user r) (users d) \<noteq> None
            \<longrightarrow> history_of (p_user r) (fst (post_progress r d))
                = \<lparr>h_contentId = p_contentId r, watchedAt = p_now r,
                   h_progress = percentage (progress s), h_completed = completed s\<rparr>
                  # take 99 (filter (\<lambda>x. h_contentId x \<noteq> p_contentId r)
                               (history_of (p_user r) d))))"
proof -
  let ?s = "snd (save_progress r (sessions d))"
  have 1: "snd (post_progress r d) = Inr \<lparr>r_progress = progress ?s, r_completed = completed ?s\<rparr>"
    by (simp add: post_progress_def updateProgress_response)
  have 2: "?s \<in> set (sessions (fst (post_progress r d)))"
    by (simp add: post_progress_def sessions_updateProgress saved_session_stored)
  have 3: "currentTime (progress ?s) = p_currentTime r"
    and 4: "duration (progress ?s) = p_duration r"
    using saved_session_times [of r "sessions d"] by simp_all
  have 7: "find (\<lambda>u. user_id u = p_user r) (users d) \<noteq> None
            \<longrightarrow> history_of (p_user r) (fst (post_progress r d))
                = \<lparr>h_contentId = p_contentId r, watchedAt = p_now r,
                   h_progress = percentage (progress ?s), h_completed = completed ?s\<rparr>
                  # take 99 (filter (\<lambda>x. h_contentId x \<noteq> p_contentId r)
                               (history_of (p_user r) d))"
  proof
    assume u: "find (\<lambda>u. user_id u = p_user r) (users d) \<noteq> None"
    have e: "ledger_entry r d = \<lparr>h_contentId = p_contentId r, watchedAt = p_now r,
                   h_progress = percentage (progress ?s), h_completed = completed ?s\<rparr>"
      by (simp add: ledger_entry_def Let_def)
    have "history_of (p_user r) (fst (post_progress r d))
          = upsert_history (ledger_entry r d) (history_of (p_user r) d)"
      using u by (simp add: post_progress_def history_updateProgress)
    also have "\<dots> = ledger_entry r d
                     # take 99 (filter (\<lambda>x. h_contentId x \<noteq> p_contentId r) (history_of (p_user r) d))"
      using upsert_history_eq [of "ledger_entry r d" "history_of (p_user r) d"]
      by (simp add: pull_history_def)
    finally show "history_of (p_user r) (fst (post_progress r d))
                = \<lparr>h_contentId = p_contentId r, watchedAt = p_now r,
                   h_progress = percentage (progress ?s), h_completed = completed ?s\<rparr>
                  # take 99 (filter (\<lambda>x. h_contentId x \<noteq> p_contentId r)
                               (history_of (p_user r) d))"
      by (simp only: e)
  qed
  show ?thesis unfolding Let_def
    by (intro conjI 1 2 3 4 saved_session_percentage saved_session_completed 7)
qed

theorem progress_never_rejected_witness:
  "snd (post_progress (report_at (-5) 2000) db_done)
     = Inr \<lparr>r_progress = \<lparr>currentTime = -5, duration = 120, percentage = - (25 / 6)\<rparr>,
            r_completed = True\<rparr>
   \<and> history_of 1 (fst (post_progress (report_at (-5) 2000) db_done))
       = [\<lparr>h_contentId = 5, watchedAt = 2000, h_progress = - (25 / 6), h_completed = True\<rparr>]"
proof -
  let ?r = "report_at (-5) 2000"
  let ?s = "snd (save_progress ?r (sessions db_done))"
  note T = progress_never_rejected [of ?r db_done, unfolded Let_def]
  have f: "find (progress_match ?r) (sessions db_done) = Some session_done"
    by (simp add: db_done_def session_done_def report_at_def progress_match_def or_null_def)
  have u: "find (\<lambda>u. user_id u = p_user ?r) (users db_done) \<noteq> None"
    by (simp add: db_done_def viewer_def report_at_def)
  have h: "history_of (p_user ?r) db_done = []"
    by (simp add: history_of_def db_done_def viewer_def report_at_def)
  from T have ct: "currentTime (progress ?s) = p_currentTime ?r"
    and du: "duration (progress ?s) = p_duration ?r" by blast+
  from T have "percentage (progress ?s)
      = (if 0 < p_duration ?r then p_currentTime ?r / p_duration ?r * 100
         else (case find (progress_match ?r) (sessions db_done) of None \<Rightarrow> 0
               | Some s0 \<Rightarrow> percentage (progress s0)))" by blast
  then have pc: "percentage (progress ?s) = - (25 / 6)" by (simp add: report_at_def)
  from T have "completed ?s
      = ((case find (progress_match ?r) (sessions db_done) of None \<Rightarrow> False
          | Some s0 \<Rightarrow> completed s0)
         \<or> (0 < p_duration ?r \<and> 90 \<le> percentage (progress ?s)))" by blast
  then have co: "completed ?s" by (simp only: f) (simp add: session_done_def)
  then have co': "completed ?s = True" by simp
  have pr: "progress ?s = \<lparr>currentTime = -5, duration = 120, percentage = - (25 / 6)\<rparr>"
    using ct du pc by (cases "progress ?s") (simp add: report_at_def)
  from T have "snd (post_progress ?r db_done)
      = Inr \<lparr>r_progress = progress ?s, r_completed = completed ?s\<rparr>" by blast
  then have a: "snd (post_progress ?r db_done)
     = Inr \<lparr>r_progress = \<lparr>currentTime = -5, duration = 120, percentage = - (25 / 6)\<rparr>,
            r_completed = True\<rparr>"
    by (simp only: pr) (simp add: co)
  from T u have "history_of (p_user ?r) (fst (post_progress ?r db_done))
       = \<lparr>h_contentId = p_contentId ?r, watchedAt = p_now ?r,
          h_progress = percentage (progress ?s), h_completed = completed ?s\<rparr>
         # take 99 (filter (\<lambda>x. h_contentId x \<noteq> p_contentId ?r) (history_of (p_user ?r) db_done))"
    by blast
  then have b: "history_of 1 (fst (post_progress ?r db_done))
       = [\<lparr>h_contentId = 5, watchedAt = 2000, h_progress = - (25 / 6), h_completed = True\<rparr>]"
    by (simp only: h pc co') (simp add: report_at_def)
  from a b show ?thesis by blast
qed

text \<open>
  C5 (terminal sessions), the claim refuted: the completed session at 90 percent accepts
  the report of second 54 of 120, and its percentage goes down to 45.
\<close>

theorem completed_percentage_drops:
  "completed (sessions db_done ! 0)
   \<and> percentage (progress (sessions db_done ! 0)) = 90
   \<and> sess_id (sessions (fst (updateProgress report_half db_done)) ! 0) = sess_id (sessions db_done ! 0)
   \<and> percentage (progress (sessions (fst (updateProgress report_half db_done)) ! 0)) = 45
   \<and> snd (updateProgress report_half db_done)
       = Inr \<lparr>r_progress = \<lparr>currentTime = 54, duration = 120, percentage = 45\<rparr>, r_completed = True\<rparr>"
  by (simp add: db_done_def session_done_def viewer_def report_half_def progress_eval)

text \<open>
  C5 as amended: a report that finds a session, completed or not, is accepted. With a
  positive duration the percentage becomes \<open>currentTime / duration * 100\<close>, whatever it
  was before (so it goes down when the reported position is lower); with a duration that
  is not positive it is left as it was. Only the \<open>completed\<close> flag is kept: it is set
  afterwards exactly when it was set before or the new percentage is at least 90.
\<close>

theorem completed_session_recomputed:
  assumes "find (progress_match r) (sessions d) = Some s0"
  shows "(let s = snd (save_progress r (sessions d))
          in s = touch_session r s0
             \<and> percentage (progress s)
                 = (if 0 < p_duration r then p_currentTime r / p_duration r * 100
                    else percentage (progress s0))
             \<and> completed s
                 = (completed s0 \<or> (0 < p_duration r \<and> 90 \<le> p_currentTime r / p_duration r * 100))
             \<and> s \<in> set (sessions (fst (updateProgress r d)))
             \<and> snd (updateProgress r d) = Inr \<lparr>r_progress = progress s, r_completed = completed s\<rparr>)"
proof -
  have s: "snd (save_progress r (sessions d)) = touch_session r s0"
    using assms by (simp add: save_progress_def Let_def)
  have m: "snd (save_progress r (sessions d)) \<in> set (sessions (fst (updateProgress r d)))"
    by (simp add: sessions_updateProgress saved_session_stored)
  show ?thesis
    unfolding Let_def using m updateProgress_response [of r d]
    by (simp add: s touch_session_percentage touch_session_completed_eq)
qed

theorem completed_session_recomputed_witness:
  "find (progress_match report_half) (sessions db_done) = Some session_done
   \<and> completed session_done \<and> percentage (progress session_done) = 90
   \<and> percentage (progress (snd (save_progress report_half (sessions db_done)))) = 45
   \<and> completed (snd (save_progress report_half (sessions db_done)))"
proof -
  have f: "find (progress_match report_half) (sessions db_done) = Some session_done"
    by (simp add: db_done_def session_done_def report_half_def progress_match_def or_null_def)
  note T = completed_session_recomputed [OF f, unfolded Let_def]
  from T have p: "percentage (progress (snd (save_progress report_half (sessions db_done))))
      = (if 0 < p_duration report_half
         then p_currentTime report_half / p_duration report_half * 100
         else percentage (progress session_done))"
    by blast
  from T have c: "completed (snd (save_progress report_half (sessions db_done)))
      = (completed session_done
         \<or> (0 < p_duration report_half
             \<and> 90 \<le> p_currentTime report_half / p_duration report_half * 100))"
    by blast
  have p': "percentage (progress (snd (save_progress report_half (sessions db_done)))) = 45"
    unfolding p by (simp add: report_half_def)
  have c': "completed (snd (save_progress report_half (sessions db_done)))"
    unfolding c by (simp add: session_done_def)
  have "completed session_done \<and> percentage (progress session_done) = 90"
    by (simp add: session_done_def)
  with f p' c' show ?thesis by blast
qed

section \<open>Properties of startPlayback\<close>

text \<open>
  C9 (access gating). When the content exists and its required plan is above the viewer's
  plan in the hierarchy free, basic, standard, premium, startPlayback answers AccessDenied
  (403) and leaves the store as it was: no session is created, no video URL is returned.
\<close>

theorem access_gating:
  assumes "find_content (s_contentId r) d = Some c"
    and "plan_index (or_free (s_plan r)) < plan_index (or_free (subscriptionRequired c))"
  shows "startPlayback r d = (d, Inl AccessDenied)"
  using assms by (simp add: startPlayback_def)

theorem access_gating_witness:
  "snd (startPlayback start_free db_premium) = Inl AccessDenied
   \<and> sessions (fst (startPlayback start_free db_premium)) = []"
proof -
  have c: "find_content (s_contentId start_free) db_premium = Some premium_film"
    by (simp add: find_content_def start_free_def db_premium_def premium_film_def)
  have p: "plan_index (or_free (s_plan start_free))
           < plan_index (or_free (subscriptionRequired premium_film))"
    by (simp add: start_free_def premium_film_def or_free_def)
  from access_gating [OF c p] show ?thesis by (simp add: db_premium_def)
qed

section \<open>Properties of markCompleted\<close>

lemma length_complete_history [simp]: "length (complete_history c h) = length h"
  by (simp add: complete_history_def)

lemma complete_history_absent: "c \<notin> set (ids h) \<Longrightarrow> complete_history c h = h"
  by (induction h) (auto simp: complete_history_def)

lemma ids_complete_history [simp]: "ids (complete_history c h) = ids h"
  by (induction h) (auto simp: complete_history_def)

lemma history_of_sessions_update [simp]: "history_of k (d\<lparr>sessions := ss\<rparr>) = history_of k d"
  by (simp add: history_of_def)

lemma history_markCompleted:
  "history_of k (fst (markCompleted r d))
   = (if k = c_user r then complete_history (c_contentId r) (history_of k d) else history_of k d)"
proof -
  let ?f = "\<lambda>u. u\<lparr>watchHistory := complete_history (c_contentId r) (watchHistory u)\<rparr>"
  let ?d1 = "d\<lparr>sessions := update_first (complete_match r)
                   (\<lambda>s. s\<lparr>completed := True, progress := (progress s)\<lparr>percentage := 100\<rparr>\<rparr>)
                   (sessions d)\<rparr>"
  have 1: "fst (markCompleted r d) = update_user (c_user r) ?f ?d1"
    by (simp add: markCompleted_def Let_def)
  have 2: "history_of k (update_user (c_user r) ?f ?d1)
           = (if k = c_user r then
                (case find (\<lambda>u. user_id u = k) (users ?d1) of None \<Rightarrow> []
                 | Some u \<Rightarrow> watchHistory (?f u))
              else history_of k ?d1)"
    by (rule history_of_update_user) simp
  show ?thesis
  proof (cases "find (\<lambda>u. user_id u = k) (users d)")
    case None
    then show ?thesis unfolding 1 2 by (auto simp: history_of_def complete_history_def)
  next
    case (Some u)
    then show ?thesis unfolding 1 2 by (auto simp: history_of_def)
  qed
qed

text \<open>
  C10 (markCompleted inserts nothing). For every viewer \<open>k\<close>, the ledger after
  markCompleted has the length and the content ids of the ledger before. It is unchanged
  when it has no entry for the content, and unchanged for every viewer other than the
  caller. Position by position, an entry of the caller for the content gets
  \<open>completed = True\<close> and \<open>progress = 100\<close> and keeps its other fields; every other entry
  is the same.
\<close>

theorem markCompleted_never_inserts:
  "(let h = history_of k d; h' = history_of k (fst (markCompleted r d))
    in length h' = length h
       \<and> ids h' = ids h
       \<and> (c_contentId r \<notin> set (ids h) \<longrightarrow> h' = h)
       \<and> (k \<noteq> c_user r \<longrightarrow> h' = h)
       \<and> (\<forall>i < length h.
            h' ! i = (if k = c_user r \<and> h_contentId (h ! i) = c_contentId r
                      then (h ! i)\<lparr>h_completed := True, h_progress := 100\<rparr> else h ! i)))"
  unfolding Let_def history_markCompleted
  by (auto simp: complete_history_absent) (simp_all add: complete_history_def)

theorem markCompleted_never_inserts_witness:
  "history_of 1 (fst (markCompleted (complete_content 9) db_two)) = history_of 1 db_two
   \<and> length (history_of 1 db_two) = 2
   \<and> history_of 1 (fst (markCompleted (complete_content 6) db_two)) ! 0
       = \<lparr>h_contentId = 6, watchedAt = 900, h_progress = 100, h_completed = True\<rparr>
   \<and> length (history_of 1 (fst (markCompleted (complete_content 6) db_two))) = 2"
proof -
  have h: "history_of 1 db_two = watchHistory viewer_two"
    by (simp add: history_of_def db_two_def viewer_two_def)
  have n: "c_contentId (complete_content 9) \<notin> set (ids (history_of 1 db_two))"
    by (simp only: h) (simp add: viewer_two_def complete_content_def)
  have l: "length (history_of 1 db_two) = 2" by (simp only: h) (simp add: viewer_two_def)
  note A = markCompleted_never_inserts [of 1 db_two "complete_content 9", unfolded Let_def]
  note B = markCompleted_never_inserts [of 1 db_two "complete_content 6", unfolded Let_def]
  from A n have a: "history_of 1 (fst (markCompleted (complete_content 9) db_two)) = history_of 1 db_two"
    by blast
  from B have b1: "length (history_of 1 (fst (markCompleted (complete_content 6) db_two))) = 2"
    using l by simp
  from B l have "history_of 1 (fst (markCompleted (complete_content 6) db_two)) ! 0
       = (if 1 = c_user (complete_content 6)
             \<and> h_contentId (history_of 1 db_two ! 0) = c_contentId (complete_content 6)
          then (history_of 1 db_two ! 0)\<lparr>h_completed := True, h_progress := 100\<rparr>
          else history_of 1 db_two ! 0)"
    by simp
  then have b2: "history_of 1 (fst (markCompleted (complete_content 6) db_two)) ! 0
       = \<lparr>h_contentId = 6, watchedAt = 900, h_progress = 100, h_completed = True\<rparr>"
    by (simp only: h) (simp add: viewer_two_def complete_content_def)
  from a l b1 b2 show ?thesis by blast
qed

section \<open>Properties of getContinueWatching\<close>

lemma mset_sort_desc [simp]: "mset (sort_desc f xs) = mset xs"
  by (simp add: sort_desc_def)

lemma set_sort_desc [simp]: "set (sort_desc f xs) = set xs"
  by (simp add: sort_desc_def)

lemma length_sort_desc [simp]: "length (sort_desc f xs) = length xs"
  by (simp add: sort_desc_def)

lemma sorted_sort_desc: "sorted_wrt (\<lambda>a b. f b \<le> f a) (sort_desc f xs)"
proof -
  have "sorted (map f (sort_key f (rev xs)))" by (rule sorted_sort_key)
  then have "sorted_wrt (\<lambda>a b. f a \<le> f b) (sort_key f (rev xs))"
    by (simp add: sorted_map)
  then show ?thesis by (simp add: sort_desc_def sorted_wrt_rev)
qed



lemmas sort_eval = sort_desc_def sort_key_def insort_key.simps

text \<open>
  C8 (continue watching), the claim refuted: the request asks for one item and the handler
  returns both open sessions. The handler never reads the query string; its cap is the
  constant 20.
\<close>

theorem continue_watching_ignores_limit:
  "cw_limit cw_one = Some 1
   \<and> map lastWatched (getContinueWatching cw_one db_watching) = [2000, 1000]"
  by (simp add: cw_one_def db_watching_def watching_def getContinueWatching_def
      continue_sessions_def continue_filter_def cw_summary_def sort_eval)

text \<open>
  C8 as amended: getContinueWatching returns the summaries of the first 20 of the viewer's
  open sessions with a percentage strictly between 5 and 90, sorted by \<open>lastUpdated\<close>
  descending. Every session returned is such a session of the store; the result has
  \<open>min 20 n\<close> items when \<open>n\<close> sessions qualify, and holds all of them when there are
  at most 20; a \<open>limit\<close> in the request changes nothing.
\<close>

theorem continue_watching:
  "(let q = filter (continue_filter (cw_user r)) (sessions d);
        res = continue_sessions (cw_user r) d
    in getContinueWatching r d = map (cw_summary d) res
       \<and> res = take 20 (sort_desc lastUpdated q)
       \<and> mset (sort_desc lastUpdated q) = mset q
       \<and> sorted_wrt (\<lambda>a b. lastUpdated b \<le> lastUpdated a) (sort_desc lastUpdated q)
       \<and> sorted_wrt (\<lambda>a b. lastUpdated b \<le> lastUpdated a) res
       \<and> length res = min 20 (length q)
       \<and> (\<forall>s \<in> set res. s \<in> set (sessions d) \<and> userId s = cw_user r \<and> \<not> completed s
              \<and> 5 < percentage (progress s) \<and> percentage (progress s) < 90)
       \<and> (length q \<le> 20 \<longrightarrow> mset res = mset q)
       \<and> getContinueWatching (r\<lparr>cw_limit := l\<rparr>) d = getContinueWatching r d)"
proof -
  let ?q = "filter (continue_filter (cw_user r)) (sessions d)"
  let ?res = "continue_sessions (cw_user r) d"
  have r: "?res = take 20 (sort_desc lastUpdated ?q)" by (simp add: continue_sessions_def)
  have s: "sorted_wrt (\<lambda>a b. lastUpdated b \<le> lastUpdated a) (sort_desc lastUpdated ?q)"
    by (rule sorted_sort_desc)
  then have s': "sorted_wrt (\<lambda>a b. lastUpdated b \<le> lastUpdated a) ?res"
    unfolding r by (rule sorted_wrt_take)
  have len: "length ?res = min 20 (length ?q)" by (simp add: r min.commute)
  have sub: "set ?res \<subseteq> set ?q"
    unfolding r using set_take_subset [of 20 "sort_desc lastUpdated ?q"] by simp
  have mem: "\<forall>s \<in> set ?res. s \<in> set (sessions d) \<and> userId s = cw_user r \<and> \<not> completed s
              \<and> 5 < percentage (progress s) \<and> percentage (progress s) < 90"
    using sub by (auto simp: continue_filter_def)
  have all: "length ?q \<le> 20 \<longrightarrow> mset ?res = mset ?q" by (simp add: r)
  have lim: "getContinueWatching (r\<lparr>cw_limit := l\<rparr>) d = getContinueWatching r d"
    by (simp add: getContinueWatching_def)
  have g: "getContinueWatching r d = map (cw_summary d) ?res"
    by (simp add: getContinueWatching_def)
  have m: "mset (sort_desc lastUpdated ?q) = mset ?q" by simp
  show ?thesis
    unfolding Let_def by (intro conjI g r m s s' len mem all lim)
qed

theorem continue_watching_witness:
  "getContinueWatching (cw_one\<lparr>cw_limit := Some 50\<rparr>) db_watching = getContinueWatching cw_one db_watching
   \<and> length (continue_sessions (cw_user cw_one) db_watching) = 2
   \<and> mset (continue_sessions (cw_user cw_one) db_watching) = mset (sessions db_watching)"
proof -
  note T = continue_watching [of cw_one db_watching "Some 50", unfolded Let_def]
  have q: "filter (continue_filter (cw_user cw_one)) (sessions db_watching) = sessions db_watching"
    by (simp add: cw_one_def db_watching_def watching_def continue_filter_def)
  have l: "length (sessions db_watching) = 2" by (simp add: db_watching_def)
  from T have a: "getContinueWatching (cw_one\<lparr>cw_limit := Some 50\<rparr>) db_watching
                  = getContinueWatching cw_one db_watching" by blast
  from T have "length (continue_sessions (cw_user cw_one) db_watching)
               = min 20 (length (filter (continue_filter (cw_user cw_one)) (sessions db_watching)))"
    by blast
  then have b: "length (continue_sessions (cw_user cw_one) db_watching) = 2"
    by (simp only: q l) simp?
  from T have "length (filter (continue_filter (cw_user cw_one)) (sessions db_watching)) \<le> 20
      \<longrightarrow> mset (continue_sessions (cw_user cw_one) db_watching)
          = mset (filter (continue_filter (cw_user cw_one)) (sessions db_watching))"
    by blast
  then have c: "mset (continue_sessions (cw_user cw_one) db_watching) = mset (sessions db_watching)"
    by (simp only: q l) simp?
  from a b c show ?thesis by blast
qed

section \<open>Properties of the genre scoring\<close>











lemma score_of_Nil [simp]: "score_of [] g = 0"
  by (simp add: score_of_def)








lemmas tag_eval = plain_tag_def is_index_def is_digit_def digit_value_def index_value_def
  proto_functions_def

lemmas score_eval = genre_scores_def add_score_def first_value_def history_weight_def or_zero_def
  entries_def ranked_def numeric_def top_genres_def




text \<open>Action and Comedy tie at 12 and keep the order in which they were met; Drama has 9.\<close>

lemma genre_ties_first_seen:
  "top_genres id 5 (genre_scores [Some action_comedy, None, Some drama_b] [Some action_comedy])
   = [''Action'', ''Comedy'', ''Drama'']"
  by (simp add: score_eval tag_eval action_comedy_def drama_a_def drama_b_def sort_eval)

text \<open>A tag that \<^verbatim>\<open>Object.prototype\<close> defines gets a string for a score, not a number.\<close>

lemma prototype_tag_not_numeric:
  "add_score ''constructor'' 10 [] = [(''constructor'', Text)]
   \<and> add_score ''__proto__'' 10 [] = []"
  by (simp add: add_score_def first_value_def proto_functions_def)

section \<open>Properties of the recommendation handlers\<close>

lemma length_mongo_limit:
  "length (mongo_limit n xs) = (if n = 0 then length xs else min n (length xs))"
  by (simp add: mongo_limit_def min.commute)

lemma similar_fails_iff:
  "(getSimilarContent p d = Inl e) = (e = ContentNotFound \<and> find_content (pv_contentId p) d = None)"
  by (auto simp: getSimilarContent_def split: option.splits)

lemma because_fails_iff:
  "(getBecauseYouWatched p d = Inl e) = (e = ContentNotFound \<and> find_content (pv_contentId p) d = None)"
  by (auto simp: getBecauseYouWatched_def split: option.splits)

lemma personalized_succeeds:
  "find (\<lambda>u. user_id u = rq_user r) (users d) = Some u \<Longrightarrow>
   \<exists>resp. getPersonalizedRecommendations engine shuffle r d = Inr resp"
  by (simp add: getPersonalizedRecommendations_def Let_def)

lemma top_picks_succeeds:
  "find (\<lambda>u. user_id u = rq_user r) (users d) = Some u \<Longrightarrow> \<exists>picks. getTopPicks engine r d = Inr picks"
  by (simp add: getTopPicks_def Let_def)

lemma fallback_recs:
  assumes "find (\<lambda>u. user_id u = rq_user r) (users d) = Some u"
    and "watchHistory u = []" and "watchlist u = []"
  shows "getPersonalizedRecommendations engine shuffle r d
         = Inr \<lparr>rec_data = shuffle (fill_recs [] [] (limit_or 20 (rq_limit r)) d), basedOn = []\<rparr>"
  using assms
  by (simp add: getPersonalizedRecommendations_def Let_def populated_history_def
      populated_watchlist_def genre_scores_def top_genres_def ranked_def entries_def numeric_def
      sort_desc_def watched_ids_def primary_recs_def List.map_filter_simps)

lemma fill_from_nothing:
  "0 < n \<Longrightarrow> fill_recs [] [] n d = take n (sort_desc (\<lambda>c. (views c, createdAt c)) (published d))"
  by (simp add: fill_recs_def mongo_limit_def published_def)

text \<open>
  C6 (scorer failure semantics and fallback). getSimilarContent and getBecauseYouWatched
  fail exactly when the pivot content does not resolve, and then with ContentNotFound. For
  a viewer who exists, getPersonalizedRecommendations and getTopPicks succeed whatever the
  history and the watchlist hold, and whatever the engine's sort does with scores that are
  not numbers. With an empty history and an empty watchlist, a limit
  \<open>n > 0\<close> and at least \<open>n\<close> published titles, and a shuffle that permutes its
  argument, the personalized answer has exactly \<open>n\<close> items, namely the \<open>n\<close> most viewed
  published titles in some order, and reports no genre. The claim's case is \<open>n = 10\<close>.
\<close>

theorem scorer_failure_semantics:
  "(getSimilarContent p d = Inl e) = (e = ContentNotFound \<and> find_content (pv_contentId p) d = None)
   \<and> (getBecauseYouWatched p d = Inl e)
       = (e = ContentNotFound \<and> find_content (pv_contentId p) d = None)
   \<and> (find (\<lambda>u. user_id u = rq_user r) (users d) = Some u
        \<longrightarrow> (\<exists>resp. getPersonalizedRecommendations engine shuffle r d = Inr resp)
            \<and> (\<exists>picks. getTopPicks engine r d = Inr picks))
   \<and> (find (\<lambda>u. user_id u = rq_user r) (users d) = Some u
        \<and> watchHistory u = [] \<and> watchlist u = []
        \<and> limit_or 20 (rq_limit r) = n \<and> 0 < n \<and> n \<le> length (published d)
        \<and> (\<forall>xs. mset (shuffle xs) = mset xs)
        \<longrightarrow> (\<exists>resp. getPersonalizedRecommendations engine shuffle r d = Inr resp
                 \<and> length (rec_data resp) = n
                 \<and> basedOn resp = []
                 \<and> mset (rec_data resp)
                     = mset (take n (sort_desc (\<lambda>c. (views c, createdAt c)) (published d)))))"
proof -
  have 3: "find (\<lambda>u. user_id u = rq_user r) (users d) = Some u
        \<longrightarrow> (\<exists>resp. getPersonalizedRecommendations engine shuffle r d = Inr resp)
            \<and> (\<exists>picks. getTopPicks engine r d = Inr picks)"
    using personalized_succeeds [of r d u engine shuffle] top_picks_succeeds [of r d u engine]
    by blast
  have 4: "find (\<lambda>u. user_id u = rq_user r) (users d) = Some u
        \<and> watchHistory u = [] \<and> watchlist u = []
        \<and> limit_or 20 (rq_limit r) = n \<and> 0 < n \<and> n \<le> length (published d)
        \<and> (\<forall>xs. mset (shuffle xs) = mset xs)
        \<longrightarrow> (\<exists>resp. getPersonalizedRecommendations engine shuffle r d = Inr resp
                 \<and> length (rec_data resp) = n
                 \<and> basedOn resp = []
                 \<and> mset (rec_data resp)
                     = mset (take n (sort_desc (\<lambda>c. (views c, createdAt c)) (published d))))"
  proof (intro impI, elim conjE)
    assume u: "find (\<lambda>u. user_id u = rq_user r) (users d) = Some u"
      and h: "watchHistory u = []" and w: "watchlist u = []"
      and l: "limit_or 20 (rq_limit r) = n" and n: "0 < n" and p: "n \<le> length (published d)"
      and s: "\<forall>xs. mset (shuffle xs) = mset xs"
    let ?top = "take n (sort_desc (\<lambda>c. (views c, createdAt c)) (published d))"
    have r: "getPersonalizedRecommendations engine shuffle r d
             = Inr \<lparr>rec_data = shuffle ?top, basedOn = []\<rparr>"
      using fallback_recs [OF u h w, of engine shuffle] fill_from_nothing [OF n, of d] by (simp add: l)
    have m: "mset (shuffle ?top) = mset ?top" using s by blast
    then have "size (mset (shuffle ?top)) = size (mset ?top)" by simp
    then have len: "length (shuffle ?top) = n" using p by simp
    from r m len show "\<exists>resp. getPersonalizedRecommendations engine shuffle r d = Inr resp
                 \<and> length (rec_data resp) = n
                 \<and> basedOn resp = []
                 \<and> mset (rec_data resp) = mset ?top"
      by simp
  qed
  show ?thesis by (intro conjI similar_fails_iff because_fails_iff 3 4)
qed

theorem scorer_failure_semantics_witness:
  "length (published db_catalog) = 12
   \<and> (\<exists>resp. getPersonalizedRecommendations id rev rec_ten db_catalog = Inr resp
         \<and> length (rec_data resp) = 10 \<and> basedOn resp = [])
   \<and> getSimilarContent \<lparr>pv_contentId = 7, pv_limit = None\<rparr> db_catalog = Inl ContentNotFound"
proof -
  have u: "find (\<lambda>u. user_id u = rq_user rec_ten) (users db_catalog) = Some viewer"
    by (simp add: rec_ten_def db_catalog_def viewer_def)
  have e: "watchHistory viewer = [] \<and> watchlist viewer = []" by (simp add: viewer_def)
  have l: "limit_or 20 (rq_limit rec_ten) = 10" by (simp add: rec_ten_def limit_or_def)
  have p: "length (published db_catalog) = 12"
    by (simp add: published_def db_catalog_def filter_map comp_def catalog_item_def del: upt.simps)
  have s: "\<forall>xs::content list. mset (rev xs) = mset xs" by simp
  have c: "find_content (pv_contentId \<lparr>pv_contentId = 7, pv_limit = None\<rparr>) db_catalog = None"
    by (simp add: find_content_def db_catalog_def find_None_iff catalog_item_def del: upt.simps)
  note T = scorer_failure_semantics [of "\<lparr>pv_contentId = 7, pv_limit = None\<rparr>" db_catalog
      ContentNotFound rec_ten viewer id rev 10]
  from T u e l p s have a: "\<exists>resp. getPersonalizedRecommendations id rev rec_ten db_catalog = Inr resp
         \<and> length (rec_data resp) = 10 \<and> basedOn resp = []"
    by auto
  from T c have b: "getSimilarContent \<lparr>pv_contentId = 7, pv_limit = None\<rparr> db_catalog = Inl ContentNotFound"
    by blast
  from p a b show ?thesis by blast
qed

end
